theory Spec2Isabelle
  imports Main "HOL-Library.AList"
begin

section \<open>Ekot web app: broadcast store, poll scheduler, playback controller\<close>

text \<open>
  A shallow embedding of \<^verbatim>\<open>app.js\<close>. The module-level objects \<^verbatim>\<open>CONFIG\<close>,
  \<^verbatim>\<open>state\<close> and \<^verbatim>\<open>elements\<close> become constants and one record that every function
  takes and returns. What the code reads from its environment (the Stockholm date and
  clock, the result of a fetch, whether the audio element accepts a play request) is a
  parameter of the function that reads it. Rendering (tiles, progress bar, date line,
  Media Session metadata) is left out. The repository holds a later copy of the module
  that reads the JSON API instead of the RSS feed; the functions embedded here are the
  same there, apart from a flag for the paused tile that the later copy maintains.
\<close>

subsection \<open>Configuration\<close>

record pollStart_t =
  hour :: int
  minute :: int

record slot =
  time :: string
  pollStart :: pollStart_t

definition CONFIG_SLOTS :: "slot list" where
  "CONFIG_SLOTS =
     [\<lparr>time = ''08:00'', pollStart = \<lparr>hour = 8, minute = 20\<rparr>\<rparr>,
      \<lparr>time = ''12:30'', pollStart = \<lparr>hour = 13, minute = 0\<rparr>\<rparr>,
      \<lparr>time = ''16:45'', pollStart = \<lparr>hour = 17, minute = 5\<rparr>\<rparr>,
      \<lparr>time = ''17:45'', pollStart = \<lparr>hour = 18, minute = 10\<rparr>\<rparr>]"

definition POLL_INTERVALS_ACTIVE :: int where "POLL_INTERVALS_ACTIVE = 60000"
definition POLL_INTERVALS_EXTENDED :: int where "POLL_INTERVALS_EXTENDED = 300000"
definition POLL_INTERVALS_IDLE :: int where "POLL_INTERVALS_IDLE = 1800000"
definition ACTIVE_WINDOW :: int where "ACTIVE_WINDOW = 10"
definition EXTENDED_WINDOW :: int where "EXTENDED_WINDOW = 30"
definition AUDIO_FOCUS_TIMEOUT :: int where "AUDIO_FOCUS_TIMEOUT = 15 * 60 * 1000"

subsection \<open>Data\<close>

text \<open>
  A broadcast as \<^verbatim>\<open>parseRss\<close> builds it. \<^verbatim>\<open>timestamp\<close> is the result of
  \<^verbatim>\<open>Date.getTime()\<close>, an integer number of milliseconds (an unparsable date never
  reaches the store: its date string differs from today's, so the item is dropped).
\<close>

record broadcast =
  title :: string
  pubDate :: string
  timestamp :: int
  audioUrl :: string
  slot_of :: string

text \<open>
  \<^verbatim>\<open>state.broadcasts\<close> is a JavaScript object keyed by slot time: its own properties
  in insertion order, as an association list. Reading a property is \<open>map_of\<close>
  (\<^verbatim>\<open>undefined\<close> is \<open>None\<close>), writing one is \<open>AList.update\<close>: an existing key
  keeps its place, a new key is appended.
\<close>

type_synonym broadcasts_t = "(string \<times> broadcast) list"

text \<open>
  An audio element, as far as the code uses it: the \<^verbatim>\<open>src\<close> attribute (\<open>None\<close>
  while the element has none, as in the page's markup) and the paused flag.
\<close>

record media =
  src :: "string option"
  paused :: bool

text \<open>
  The browser's timer table. \<^verbatim>\<open>setTimeout\<close> returns a fresh positive id and adds a
  pending entry; \<^verbatim>\<open>clearTimeout\<close> removes the entry with that id, if any; a timer
  that fires leaves the table. The entry records which callback was registered and
  the delay in milliseconds.
\<close>

datatype timer_callback = PollCallback | AudioFocusCallback | HideStatusCallback

record pending_timer =
  tid :: nat
  callback :: timer_callback
  delay :: int

text \<open>
  The messages of \<^verbatim>\<open>showStatus\<close>:
  \<open>NoBroadcastAvailable\<close> is "Ingen sandning tillganglig" (play on an empty slot),
  \<open>CouldNotPlay\<close> is "Kunde inte spela upp ljudet" (a rejected play request),
  \<open>NoBroadcastsToday\<close> is "Inga sandningar idag annu",
  \<open>PlaybackFault\<close> is "Fel vid uppspelning" (the audio element's error event),
  \<open>CouldNotFetch\<close> is "Kunde inte hamta sandningar".
\<close>

datatype message = NoBroadcastAvailable | CouldNotPlay | NoBroadcastsToday
  | PlaybackFault | CouldNotFetch

record status_notice =
  msg :: message
  isError :: bool

record app_state =
  broadcasts :: broadcasts_t
  currentSlot :: "string option"
  lastFetchDate :: "string option"
  pollTimer :: "nat option"
  audioFocusTimer :: "nat option"
  audioPlayer :: media
  silencePlayer :: media
  timers :: "pending_timer list"
  nextTimerId :: nat
  notices :: "status_notice list"

text \<open>The state as the module creates it, before \<^verbatim>\<open>init\<close> runs.\<close>

definition initial_state :: app_state where
  "initial_state =
     \<lparr>broadcasts = [], currentSlot = None, lastFetchDate = None, pollTimer = None,
      audioFocusTimer = None, audioPlayer = \<lparr>src = None, paused = True\<rparr>,
      silencePlayer = \<lparr>src = None, paused = True\<rparr>, timers = [], nextTimerId = 1,
      notices = []\<rparr>"

subsection \<open>Timers and status messages\<close>

definition setTimeout :: "timer_callback \<Rightarrow> int \<Rightarrow> app_state \<Rightarrow> nat \<times> app_state" where
  "setTimeout cb d st =
     (nextTimerId st,
      st\<lparr>timers := timers st @ [\<lparr>tid = nextTimerId st, callback = cb, delay = d\<rparr>],
         nextTimerId := Suc (nextTimerId st)\<rparr>)"

definition clearTimeout :: "nat \<Rightarrow> app_state \<Rightarrow> app_state" where
  "clearTimeout i st = st\<lparr>timers := filter (\<lambda>t. tid t \<noteq> i) (timers st)\<rparr>"

text \<open>
  \<^verbatim>\<open>showStatus(message, isError = false, duration = 3000)\<close> shows the message and
  starts a timer that hides it again.
\<close>

definition showStatus :: "message \<Rightarrow> bool \<Rightarrow> app_state \<Rightarrow> app_state" where
  "showStatus m e st =
     snd (setTimeout HideStatusCallback 3000
            (st\<lparr>notices := notices st @ [\<lparr>msg = m, isError = e\<rparr>]\<rparr>))"

subsection \<open>Broadcast store helpers\<close>

text \<open>
  The loop of \<^verbatim>\<open>findLatestBroadcast\<close> over the remaining slots, with the two local
  variables \<^verbatim>\<open>latest\<close> and \<^verbatim>\<open>latestTimestamp\<close> as accumulators.
\<close>

fun findLatest_loop :: "broadcasts_t \<Rightarrow> slot list \<Rightarrow> string option \<Rightarrow> int \<Rightarrow> string option" where
  "findLatest_loop bs [] latest latestTimestamp = latest"
| "findLatest_loop bs (s # ss) latest latestTimestamp =
     (case map_of bs (time s) of
        Some b \<Rightarrow>
          if timestamp b > latestTimestamp
          then findLatest_loop bs ss (Some (time s)) (timestamp b)
          else findLatest_loop bs ss latest latestTimestamp
      | None \<Rightarrow> findLatest_loop bs ss latest latestTimestamp)"

definition findLatestBroadcast :: "app_state \<Rightarrow> string option" where
  "findLatestBroadcast st = findLatest_loop (broadcasts st) CONFIG_SLOTS None 0"

subsection \<open>Poll interval\<close>

text \<open>
  The loop of \<^verbatim>\<open>calculatePollInterval\<close>; \<open>currentMinutes\<close> is
  \<^verbatim>\<open>hour * 60 + minute\<close> of the Stockholm clock.
\<close>

definition pollStartMinutes :: "slot \<Rightarrow> int" where
  "pollStartMinutes s = hour (pollStart s) * 60 + minute (pollStart s)"

fun pollInterval_loop :: "broadcasts_t \<Rightarrow> int \<Rightarrow> slot list \<Rightarrow> int" where
  "pollInterval_loop bs currentMinutes [] = POLL_INTERVALS_IDLE"
| "pollInterval_loop bs currentMinutes (s # ss) =
     (let diff = currentMinutes - pollStartMinutes s
      in if map_of bs (time s) = None then
           if diff \<ge> 0 \<and> diff \<le> ACTIVE_WINDOW then POLL_INTERVALS_ACTIVE
           else if diff > ACTIVE_WINDOW \<and> diff \<le> EXTENDED_WINDOW then POLL_INTERVALS_EXTENDED
           else pollInterval_loop bs currentMinutes ss
         else pollInterval_loop bs currentMinutes ss)"

definition calculatePollInterval :: "int \<Rightarrow> int \<Rightarrow> app_state \<Rightarrow> int" where
  "calculatePollInterval h m st = pollInterval_loop (broadcasts st) (h * 60 + m) CONFIG_SLOTS"

subsection \<open>Day change and merge\<close>

text \<open>
  \<^verbatim>\<open>Object.assign(target, source)\<close> writes every own property of the source, in
  order, into the target.
\<close>

definition Object_assign :: "broadcasts_t \<Rightarrow> broadcasts_t \<Rightarrow> broadcasts_t" where
  "Object_assign target source = fold (\<lambda>(k, v) t. AList.update k v t) source target"

subsection \<open>Audio elements\<close>

text \<open>
  Whether an audio element accepts a play request is decided outside the program: the
  promise returned by \<^verbatim>\<open>play()\<close> resolves or rejects. An accepted request leaves the
  element playing; a rejected one leaves it as it was. Assigning \<^verbatim>\<open>src\<close> sets the
  attribute and loads the new source with the element paused. The element changes only
  through these requests and when it plays to its end.

  Reading \<^verbatim>\<open>src\<close> does not give back what was assigned: the property is the
  attribute resolved against the address of the page. It is the empty string only while
  the element has no \<^verbatim>\<open>src\<close> attribute; after the assignment of the empty string
  it is the address of the page, which is not empty. The code reads the property only
  to test it for emptiness (\<^verbatim>\<open>!elements.audioPlayer.src\<close>). A source is loaded while
  the attribute holds a non-empty address.
\<close>

datatype play_outcome = Accepted | Rejected

definition media_play :: "play_outcome \<Rightarrow> media \<Rightarrow> media" where
  "media_play oc m = (case oc of Accepted \<Rightarrow> m\<lparr>paused := False\<rparr> | Rejected \<Rightarrow> m)"

definition media_pause :: "media \<Rightarrow> media" where
  "media_pause m = m\<lparr>paused := True\<rparr>"

definition media_set_src :: "string \<Rightarrow> media \<Rightarrow> media" where
  "media_set_src u m = \<lparr>src = Some u, paused = True\<rparr>"

definition src_property_empty :: "media \<Rightarrow> bool" where
  "src_property_empty m \<longleftrightarrow> src m = None"

definition loaded :: "media \<Rightarrow> bool" where
  "loaded m = (case src m of None \<Rightarrow> False | Some u \<Rightarrow> u \<noteq> [])"

subsection \<open>Audio focus keep-alive\<close>

text \<open>
  A timer handle is tested by truthiness (\<^verbatim>\<open>if (state.audioFocusTimer)\<close>): \<^verbatim>\<open>null\<close>
  and the number 0 are both false.
\<close>

definition stopAudioFocusKeepAlive :: "app_state \<Rightarrow> app_state" where
  "stopAudioFocusKeepAlive st =
     (let st1 = (case audioFocusTimer st of
                   Some i \<Rightarrow> if i \<noteq> 0 then (clearTimeout i st)\<lparr>audioFocusTimer := None\<rparr> else st
                 | None \<Rightarrow> st)
      in st1\<lparr>silencePlayer := media_set_src [] (media_pause (silencePlayer st1))\<rparr>)"

text \<open>
  \<open>oc\<close> is the outcome of the silence player's play request; a rejection is only
  logged to the console.
\<close>

definition startAudioFocusKeepAlive :: "play_outcome \<Rightarrow> app_state \<Rightarrow> app_state" where
  "startAudioFocusKeepAlive oc st =
     (let st1 = stopAudioFocusKeepAlive st;
          st2 = st1\<lparr>silencePlayer :=
                  media_play oc (media_set_src ''assets/silence.wav'' (silencePlayer st1))\<rparr>;
          r = setTimeout AudioFocusCallback AUDIO_FOCUS_TIMEOUT st2
      in (snd r)\<lparr>audioFocusTimer := Some (fst r)\<rparr>)"

subsection \<open>Playback\<close>

text \<open>
  \<open>oc\<close> is the outcome of the one play request a call issues. The \<^verbatim>\<open>catch\<close>
  handler of a rejected request shows a status message and does nothing else. Media
  Session metadata, the now-playing text and \<^verbatim>\<open>renderTiles\<close> are presentation and
  are left out.
\<close>

definition playBroadcast :: "string \<Rightarrow> play_outcome \<Rightarrow> app_state \<Rightarrow> app_state" where
  "playBroadcast slot oc st =
     (case map_of (broadcasts st) slot of
        None \<Rightarrow> showStatus NoBroadcastAvailable True st
      | Some b \<Rightarrow>
          if audioUrl b = [] then showStatus NoBroadcastAvailable True st
          else
            (let st1 = stopAudioFocusKeepAlive st;
                 st2 = st1\<lparr>currentSlot := Some slot\<rparr>;
                 st3 = st2\<lparr>audioPlayer :=
                         media_play oc (media_set_src (audioUrl b) (audioPlayer st2))\<rparr>
             in case oc of
                  Rejected \<Rightarrow> showStatus CouldNotPlay True st3
                | Accepted \<Rightarrow> st3))"

definition stopPlayback :: "app_state \<Rightarrow> app_state" where
  "stopPlayback st =
     (let st1 = stopAudioFocusKeepAlive st
      in st1\<lparr>audioPlayer := media_set_src [] (media_pause (audioPlayer st1)),
             currentSlot := None\<rparr>)"

definition togglePlayPause :: "play_outcome \<Rightarrow> app_state \<Rightarrow> app_state" where
  "togglePlayPause oc st =
     (if src_property_empty (audioPlayer st) then
        (case findLatestBroadcast st of
           Some latestSlot \<Rightarrow>
             if latestSlot \<noteq> [] then playBroadcast latestSlot oc st
             else showStatus NoBroadcastsToday False st
         | None \<Rightarrow> showStatus NoBroadcastsToday False st)
      else if paused (audioPlayer st) then
        (let st1 = stopAudioFocusKeepAlive st;
             st2 = st1\<lparr>audioPlayer := media_play oc (audioPlayer st1)\<rparr>
         in case oc of
              Rejected \<Rightarrow> showStatus CouldNotPlay True st2
            | Accepted \<Rightarrow> st2)
      else startAudioFocusKeepAlive oc (st\<lparr>audioPlayer := media_pause (audioPlayer st)\<rparr>))"

text \<open>The callback that \<^verbatim>\<open>startAudioFocusKeepAlive\<close> registers with its timer.\<close>

definition audioFocusTimeout :: "app_state \<Rightarrow> app_state" where
  "audioFocusTimeout st = stopPlayback (stopAudioFocusKeepAlive st)"

subsection \<open>Day change\<close>

text \<open>
  \<open>today\<close> is what \<^verbatim>\<open>getStockholmDate()\<close> returns during the call.
  \<^verbatim>\<open>state.lastFetchDate && ...\<close> is false for \<^verbatim>\<open>null\<close> and for the empty string.
\<close>

definition resetForNewDay :: "string \<Rightarrow> app_state \<Rightarrow> app_state" where
  "resetForNewDay today st =
     stopPlayback (st\<lparr>broadcasts := [], currentSlot := None, lastFetchDate := Some today\<rparr>)"

definition checkDayChange :: "string \<Rightarrow> app_state \<Rightarrow> bool \<times> app_state" where
  "checkDayChange currentDate st =
     (case lastFetchDate st of
        Some d \<Rightarrow>
          if d \<noteq> [] \<and> d \<noteq> currentDate then (True, resetForNewDay currentDate st)
          else (False, st)
      | None \<Rightarrow> (False, st))"

subsection \<open>Fetching and polling\<close>

text \<open>
  \<^verbatim>\<open>updateBroadcasts\<close> is asynchronous: it runs \<^verbatim>\<open>checkDayChange\<close>, awaits the
  fetch, and continues when the fetch has settled. \<^verbatim>\<open>fetchRss\<close> returns
  \<^verbatim>\<open>null\<close> on 304 and, after an error message, on any failure; otherwise the parsed
  broadcasts of today.
\<close>

datatype fetch_result = NotModified | FetchFailed | Fetched broadcasts_t

definition updateBroadcasts_begin :: "string \<Rightarrow> app_state \<Rightarrow> app_state" where
  "updateBroadcasts_begin today st = snd (checkDayChange today st)"

definition updateBroadcasts_resume :: "fetch_result \<Rightarrow> string \<Rightarrow> app_state \<Rightarrow> app_state" where
  "updateBroadcasts_resume r today st =
     (case r of
        NotModified \<Rightarrow> st
      | FetchFailed \<Rightarrow> showStatus CouldNotFetch True st
      | Fetched newBroadcasts \<Rightarrow>
          st\<lparr>broadcasts := Object_assign (broadcasts st) newBroadcasts,
             lastFetchDate := Some today\<rparr>)"

definition schedulePoll :: "int \<Rightarrow> int \<Rightarrow> app_state \<Rightarrow> app_state" where
  "schedulePoll h m st =
     (let st1 = (case pollTimer st of
                   Some i \<Rightarrow> if i \<noteq> 0 then clearTimeout i st else st
                 | None \<Rightarrow> st);
          interval = calculatePollInterval h m st1;
          r = setTimeout PollCallback interval st1
      in (snd r)\<lparr>pollTimer := Some (fst r)\<rparr>)"

text \<open>
  The poll timer's callback: \<^verbatim>\<open>await updateBroadcasts(); schedulePoll()\<close>, in its
  two halves around the awaited fetch.
\<close>

definition pollCallback_begin :: "string \<Rightarrow> app_state \<Rightarrow> app_state" where
  "pollCallback_begin today st = updateBroadcasts_begin today st"

definition pollCallback_resume :: "fetch_result \<Rightarrow> string \<Rightarrow> int \<Rightarrow> int \<Rightarrow> app_state \<Rightarrow> app_state" where
  "pollCallback_resume r today h m st = schedulePoll h m (updateBroadcasts_resume r today st)"

text \<open>
  A pending timer fires: the browser takes it out of the table and runs its callback.
  An id that is not pending cannot fire.
\<close>

definition fire_timer :: "nat \<Rightarrow> string \<Rightarrow> app_state \<Rightarrow> app_state" where
  "fire_timer i today st =
     (case find (\<lambda>t. tid t = i) (timers st) of
        None \<Rightarrow> st
      | Some t \<Rightarrow>
          (let st1 = st\<lparr>timers := filter (\<lambda>t. tid t \<noteq> i) (timers st)\<rparr>
           in case callback t of
                PollCallback \<Rightarrow> pollCallback_begin today st1
              | AudioFocusCallback \<Rightarrow> audioFocusTimeout st1
              | HideStatusCallback \<Rightarrow> st1))"

subsection \<open>Listeners\<close>

text \<open>
  The audio element's \<^verbatim>\<open>ended\<close> and \<^verbatim>\<open>error\<close> listeners, the Media Session action
  handlers, the one-minute midnight check, and the synchronous part of \<^verbatim>\<open>init\<close>.
  An element that has played to its end is paused when \<^verbatim>\<open>ended\<close> is dispatched.
  The midnight check is registered with \<^verbatim>\<open>setInterval\<close>; its ticks are events of
  their own and it has no entry in the timer table.
\<close>

definition on_ended :: "app_state \<Rightarrow> app_state" where
  "on_ended st = st\<lparr>currentSlot := None\<rparr>"

definition on_error :: "app_state \<Rightarrow> app_state" where
  "on_error st = stopPlayback (showStatus PlaybackFault True st)"

definition mediaSession_play :: "play_outcome \<Rightarrow> app_state \<Rightarrow> app_state" where
  "mediaSession_play oc st =
     (let st1 = stopAudioFocusKeepAlive st
      in st1\<lparr>audioPlayer := media_play oc (audioPlayer st1)\<rparr>)"

definition mediaSession_pause :: "play_outcome \<Rightarrow> app_state \<Rightarrow> app_state" where
  "mediaSession_pause oc st =
     startAudioFocusKeepAlive oc (st\<lparr>audioPlayer := media_pause (audioPlayer st)\<rparr>)"

definition mediaSession_stop :: "app_state \<Rightarrow> app_state" where
  "mediaSession_stop st = stopPlayback st"

definition midnightCheck :: "string \<Rightarrow> app_state \<Rightarrow> app_state" where
  "midnightCheck today st =
     (case checkDayChange today st of
        (True, st1) \<Rightarrow> updateBroadcasts_begin today st1
      | (False, st1) \<Rightarrow> st1)"

definition init_begin :: "string \<Rightarrow> app_state \<Rightarrow> app_state" where
  "init_begin today st = updateBroadcasts_begin today (st\<lparr>lastFetchDate := Some today\<rparr>)"

subsection \<open>The controller as a transition system\<close>

text \<open>
  The three playback states are not stored. The controller is stopped while no source
  is loaded (the element never had one, or \<^verbatim>\<open>stopPlayback\<close> has emptied it), paused
  while a source is loaded and the element is paused, playing while a source is loaded
  and the element is not paused. The test of \<^verbatim>\<open>togglePlayPause\<close> for "nothing
  loaded" is a different one: it reads the \<^verbatim>\<open>src\<close> property, which is empty only
  before the first source is assigned.
\<close>

datatype playback_status = Stopped | Playing | Paused

definition status :: "app_state \<Rightarrow> playback_status" where
  "status st =
     (if \<not> loaded (audioPlayer st) then Stopped
      else if paused (audioPlayer st) then Paused else Playing)"

text \<open>
  The events that drive the app, each running one handler: the start of \<^verbatim>\<open>init\<close>,
  a click on a tile or on the play/pause button, the Media Session actions, the audio
  element's \<^verbatim>\<open>ended\<close> and \<^verbatim>\<open>error\<close> events, a pending timer firing, the awaited
  fetch settling (in \<^verbatim>\<open>init\<close> and the poll callback, which go on to
  \<^verbatim>\<open>schedulePoll\<close>, or in the midnight check), and a tick of the midnight check.
  Each carries what the handler reads from outside: the date, the clock, the fetch
  result, the outcome of the play request.
\<close>

datatype event =
    Init string
  | TileClick string play_outcome
  | ToggleClick play_outcome
  | MediaPlay play_outcome
  | MediaPause play_outcome
  | MediaStop
  | AudioEnded
  | AudioError
  | TimerFires nat string
  | PollFetchSettled fetch_result string int int
  | UpdateFetchSettled fetch_result string
  | MidnightTick string

fun step :: "event \<Rightarrow> app_state \<Rightarrow> app_state" where
  "step (Init today) st = init_begin today st"
| "step (TileClick slot oc) st = playBroadcast slot oc st"
| "step (ToggleClick oc) st = togglePlayPause oc st"
| "step (MediaPlay oc) st = mediaSession_play oc st"
| "step (MediaPause oc) st = mediaSession_pause oc st"
| "step MediaStop st = mediaSession_stop st"
| "step AudioEnded st = on_ended (st\<lparr>audioPlayer := media_pause (audioPlayer st)\<rparr>)"
| "step AudioError st = on_error st"
| "step (TimerFires i today) st = fire_timer i today st"
| "step (PollFetchSettled r today h m) st = pollCallback_resume r today h m st"
| "step (UpdateFetchSettled r today) st = updateBroadcasts_resume r today st"
| "step (MidnightTick today) st = midnightCheck today st"

fun run :: "event list \<Rightarrow> app_state \<Rightarrow> app_state" where
  "run [] st = st"
| "run (e # es) st = run es (step e st)"

subsection \<open>Example data\<close>

text \<open>Concrete broadcasts and states on which the theorems below are exercised.\<close>

definition demo_broadcast :: "string \<Rightarrow> int \<Rightarrow> broadcast" where
  "demo_broadcast l ts =
     \<lparr>title = ''Ekot '' @ l, pubDate = [], timestamp = ts,
      audioUrl = ''https://sr.example/'' @ l, slot_of = l\<rparr>"

definition with_broadcasts :: "broadcasts_t \<Rightarrow> app_state" where
  "with_broadcasts bs = initial_state\<lparr>broadcasts := bs\<rparr>"

text \<open>
  A day of use: the app starts on 2 November, the first fetch brings the 08:00
  broadcast and the poll is scheduled at 12:00; then the tile is clicked (playing) and
  the play/pause button is pressed (paused).
\<close>

definition demo_loaded :: app_state where
  "demo_loaded =
     run [Init ''2026-11-02'',
          PollFetchSettled (Fetched [(''08:00'', demo_broadcast ''08:00'' 100)])
            ''2026-11-02'' 12 0]
       initial_state"

definition demo_playing :: app_state where
  "demo_playing = step (TileClick ''08:00'' Accepted) demo_loaded"

definition demo_paused :: app_state where
  "demo_paused = step (ToggleClick Accepted) demo_playing"



text \<open>
  A poll over midnight: while 08:00 is playing the poll timer fires late on 2 November,
  and its fetch settles on 3 November with no broadcast of the new day.
\<close>

definition demo_midnight :: app_state where
  "demo_midnight =
     run [TimerFires 1 ''2026-11-02'',
          PollFetchSettled (Fetched []) ''2026-11-03'' 0 0]
       demo_playing"

subsection \<open>Invariants of the timer table\<close>

text \<open>
  Ids handed out are positive and below the next id; pending ids are distinct; a
  pending poll timer is the one \<^verbatim>\<open>state.pollTimer\<close> names and a pending audio-focus
  timer is the one \<^verbatim>\<open>state.audioFocusTimer\<close> names, armed with
  \<open>AUDIO_FOCUS_TIMEOUT\<close>; a handle names a timer of its own kind; the audio-focus
  handle, when set, names a pending timer.
\<close>

definition timers_ok :: "app_state \<Rightarrow> bool" where
  "timers_ok st \<longleftrightarrow>
     0 < nextTimerId st \<and>
     (\<forall>t\<in>set (timers st). 0 < tid t \<and> tid t < nextTimerId st) \<and>
     distinct (map tid (timers st)) \<and>
     (\<forall>t\<in>set (timers st). callback t = PollCallback \<longrightarrow> pollTimer st = Some (tid t)) \<and>
     (\<forall>t\<in>set (timers st). callback t = AudioFocusCallback \<longrightarrow>
         audioFocusTimer st = Some (tid t) \<and> delay t = AUDIO_FOCUS_TIMEOUT) \<and>
     (\<forall>i. pollTimer st = Some i \<longrightarrow> 0 < i \<and> i < nextTimerId st \<and>
         (\<forall>t\<in>set (timers st). tid t = i \<longrightarrow> callback t = PollCallback)) \<and>
     (\<forall>i. audioFocusTimer st = Some i \<longrightarrow> 0 < i \<and> i < nextTimerId st \<and>
         (\<exists>t\<in>set (timers st). tid t = i \<and> callback t = AudioFocusCallback))"

definition pending :: "timer_callback \<Rightarrow> app_state \<Rightarrow> pending_timer list" where
  "pending cb st = filter (\<lambda>t. callback t = cb) (timers st)"


section \<open>The latest broadcast\<close>

lemma findLatest_loop_unchanged:
  "(\<forall>s\<in>set ss. \<forall>b. map_of bs (time s) = Some b \<longrightarrow> timestamp b \<le> t)
   \<Longrightarrow> findLatest_loop bs ss l t = l"
  by (induction ss arbitrary: l t) (auto split: option.splits)

text \<open>
  Either no remaining slot beats the running maximum and the accumulator is returned,
  or the result is the first remaining slot that holds the largest timestamp, and that
  timestamp beats the running maximum.
\<close>

lemma findLatest_loop_cases:
  "(findLatest_loop bs ss l t = l \<and>
      (\<forall>s\<in>set ss. \<forall>b. map_of bs (time s) = Some b \<longrightarrow> timestamp b \<le> t))
   \<or> (\<exists>i<length ss. \<exists>b.
         findLatest_loop bs ss l t = Some (time (ss ! i)) \<and>
         map_of bs (time (ss ! i)) = Some b \<and> t < timestamp b \<and>
         (\<forall>j<i. \<forall>b'. map_of bs (time (ss ! j)) = Some b' \<longrightarrow> timestamp b' < timestamp b) \<and>
         (\<forall>j<length ss. \<forall>b'. map_of bs (time (ss ! j)) = Some b' \<longrightarrow> timestamp b' \<le> timestamp b))"
proof (induction ss arbitrary: l t)
  case Nil
  then show ?case by simp
next
  case (Cons s ss)
  let ?P = "\<lambda>ss r t i b. r = Some (time (ss ! i)) \<and>
         map_of bs (time (ss ! i)) = Some b \<and> t < timestamp b \<and>
         (\<forall>j<i. \<forall>b'. map_of bs (time (ss ! j)) = Some b' \<longrightarrow> timestamp b' < timestamp b) \<and>
         (\<forall>j<length ss. \<forall>b'. map_of bs (time (ss ! j)) = Some b' \<longrightarrow> timestamp b' \<le> timestamp b)"
  show ?case
  proof (cases "\<exists>b. map_of bs (time s) = Some b \<and> t < timestamp b")
    case True
    then obtain b0 where b0: "map_of bs (time s) = Some b0" "t < timestamp b0" by blast
    have eq: "findLatest_loop bs (s # ss) l t = findLatest_loop bs ss (Some (time s)) (timestamp b0)"
      using b0 by simp
    from Cons.IH[of "Some (time s)" "timestamp b0"]
    show ?thesis
    proof
      assume A: "findLatest_loop bs ss (Some (time s)) (timestamp b0) = Some (time s) \<and>
        (\<forall>s\<in>set ss. \<forall>b. map_of bs (time s) = Some b \<longrightarrow> timestamp b \<le> timestamp b0)"
      have "?P (s # ss) (findLatest_loop bs (s # ss) l t) t 0 b0"
        using A b0 eq by (auto simp: nth_Cons split: nat.splits)
      then show ?thesis
        by (intro disjI2 exI[of _ 0] exI[of _ b0]) (simp del: findLatest_loop.simps)
    next
      assume "\<exists>i<length ss. \<exists>b.
        ?P ss (findLatest_loop bs ss (Some (time s)) (timestamp b0)) (timestamp b0) i b"
      then obtain i b where i: "i < length ss"
        and P: "?P ss (findLatest_loop bs ss (Some (time s)) (timestamp b0)) (timestamp b0) i b"
        by blast
      have "?P (s # ss) (findLatest_loop bs (s # ss) l t) t (Suc i) b"
        using P b0 eq by (auto simp: nth_Cons less_Suc_eq_0_disj split: nat.splits)
      then show ?thesis using i
        by (intro disjI2 exI[of _ "Suc i"] exI[of _ b]) (simp del: findLatest_loop.simps)
    qed
  next
    case False
    then have le: "\<forall>b. map_of bs (time s) = Some b \<longrightarrow> timestamp b \<le> t" by auto
    have eq: "findLatest_loop bs (s # ss) l t = findLatest_loop bs ss l t"
      using False by (auto split: option.splits)
    from Cons.IH[of l t]
    show ?thesis
    proof
      assume "findLatest_loop bs ss l t = l \<and>
        (\<forall>s\<in>set ss. \<forall>b. map_of bs (time s) = Some b \<longrightarrow> timestamp b \<le> t)"
      then show ?thesis using eq le by auto
    next
      assume "\<exists>i<length ss. \<exists>b. ?P ss (findLatest_loop bs ss l t) t i b"
      then obtain i b where i: "i < length ss"
        and P: "?P ss (findLatest_loop bs ss l t) t i b" by blast
      have "?P (s # ss) (findLatest_loop bs (s # ss) l t) t (Suc i) b"
        using P le eq by (fastforce simp: nth_Cons less_Suc_eq_0_disj split: nat.splits)
      then show ?thesis using i
        by (intro disjI2 exI[of _ "Suc i"] exI[of _ b]) (simp del: findLatest_loop.simps)
    qed
  qed
qed

text \<open>
  C1, as the code has it. \<^verbatim>\<open>findLatestBroadcast\<close> scans the slots in configured
  order with a running maximum that starts at 0 and is replaced only by a strictly
  greater timestamp. It returns none exactly when no configured slot holds a broadcast
  with a positive timestamp, in particular on the empty store. Otherwise it returns the
  label of a slot whose broadcast has the largest timestamp among the slots' broadcasts,
  that timestamp is positive, and every slot earlier in the order has a strictly smaller
  one: among equal timestamps the earliest slot is returned.
\<close>

theorem findLatest_first_positive_maximum:
  "(findLatestBroadcast st = None \<longleftrightarrow>
      (\<forall>s\<in>set CONFIG_SLOTS. \<forall>b. map_of (broadcasts st) (time s) = Some b \<longrightarrow> timestamp b \<le> 0))
   \<and> (\<forall>l. findLatestBroadcast st = Some l \<longrightarrow>
         (\<exists>i<length CONFIG_SLOTS. \<exists>b.
            l = time (CONFIG_SLOTS ! i) \<and>
            map_of (broadcasts st) l = Some b \<and> 0 < timestamp b \<and>
            (\<forall>j<i. \<forall>b'. map_of (broadcasts st) (time (CONFIG_SLOTS ! j)) = Some b'
                 \<longrightarrow> timestamp b' < timestamp b) \<and>
            (\<forall>j<length CONFIG_SLOTS. \<forall>b'. map_of (broadcasts st) (time (CONFIG_SLOTS ! j)) = Some b'
                 \<longrightarrow> timestamp b' \<le> timestamp b)))
   \<and> (broadcasts st = [] \<longrightarrow> findLatestBroadcast st = None)"
proof -
  let ?bs = "broadcasts st"
  note C = findLatest_loop_cases[of ?bs CONFIG_SLOTS None 0]
  have a: "findLatestBroadcast st = None \<longleftrightarrow>
      (\<forall>s\<in>set CONFIG_SLOTS. \<forall>b. map_of ?bs (time s) = Some b \<longrightarrow> timestamp b \<le> 0)"
  proof
    assume N: "findLatestBroadcast st = None"
    from C show "\<forall>s\<in>set CONFIG_SLOTS. \<forall>b. map_of ?bs (time s) = Some b \<longrightarrow> timestamp b \<le> 0"
      using N unfolding findLatestBroadcast_def by auto
  next
    assume "\<forall>s\<in>set CONFIG_SLOTS. \<forall>b. map_of ?bs (time s) = Some b \<longrightarrow> timestamp b \<le> 0"
    then show "findLatestBroadcast st = None"
      unfolding findLatestBroadcast_def by (rule findLatest_loop_unchanged)
  qed
  have b: "\<forall>l. findLatestBroadcast st = Some l \<longrightarrow>
         (\<exists>i<length CONFIG_SLOTS. \<exists>b.
            l = time (CONFIG_SLOTS ! i) \<and>
            map_of ?bs l = Some b \<and> 0 < timestamp b \<and>
            (\<forall>j<i. \<forall>b'. map_of ?bs (time (CONFIG_SLOTS ! j)) = Some b'
                 \<longrightarrow> timestamp b' < timestamp b) \<and>
            (\<forall>j<length CONFIG_SLOTS. \<forall>b'. map_of ?bs (time (CONFIG_SLOTS ! j)) = Some b'
                 \<longrightarrow> timestamp b' \<le> timestamp b))"
    using C unfolding findLatestBroadcast_def by auto
  have c: "broadcasts st = [] \<longrightarrow> findLatestBroadcast st = None"
    using a by simp
  from a b c show ?thesis by blast
qed

text \<open>
  The theorem at the examples: 08:00 at timestamp 100 and 12:30 at timestamp 200 give
  12:30; two slots with the same timestamp give the earlier one, whatever the order in
  which they were stored.
\<close>

theorem findLatest_first_positive_maximum_witness:
  "findLatestBroadcast (with_broadcasts
       [(''12:30'', demo_broadcast ''12:30'' 200), (''08:00'', demo_broadcast ''08:00'' 200)])
     = Some ''08:00''
   \<and> (\<exists>i<length CONFIG_SLOTS. \<exists>b.
         ''08:00'' = time (CONFIG_SLOTS ! i) \<and>
         map_of (broadcasts (with_broadcasts
           [(''12:30'', demo_broadcast ''12:30'' 200), (''08:00'', demo_broadcast ''08:00'' 200)]))
           ''08:00'' = Some b \<and> 0 < timestamp b)
   \<and> findLatestBroadcast (with_broadcasts
       [(''08:00'', demo_broadcast ''08:00'' 100), (''12:30'', demo_broadcast ''12:30'' 200)])
     = Some ''12:30''
   \<and> broadcasts (with_broadcasts []) = []
   \<and> findLatestBroadcast (with_broadcasts []) = None"
proof -
  let ?ties = "with_broadcasts
       [(''12:30'', demo_broadcast ''12:30'' 200), (''08:00'', demo_broadcast ''08:00'' 200)]"
  have t: "findLatestBroadcast ?ties = Some ''08:00''"
    by (simp add: findLatestBroadcast_def with_broadcasts_def initial_state_def
          CONFIG_SLOTS_def demo_broadcast_def)
  have "\<exists>i<length CONFIG_SLOTS. \<exists>b. ''08:00'' = time (CONFIG_SLOTS ! i) \<and>
         map_of (broadcasts ?ties) ''08:00'' = Some b \<and> 0 < timestamp b"
    using findLatest_first_positive_maximum [of ?ties] t by blast
  moreover have "findLatestBroadcast (with_broadcasts
       [(''08:00'', demo_broadcast ''08:00'' 100), (''12:30'', demo_broadcast ''12:30'' 200)])
     = Some ''12:30''"
    by (simp add: findLatestBroadcast_def with_broadcasts_def initial_state_def
          CONFIG_SLOTS_def demo_broadcast_def)
  moreover have e: "broadcasts (with_broadcasts []) = []"
    by (simp add: with_broadcasts_def)
  moreover have "findLatestBroadcast (with_broadcasts []) = None"
    using findLatest_first_positive_maximum [of "with_broadcasts []"] e by blast
  ultimately show ?thesis using t by blast
qed

text \<open>
  The claim as stated fails on a store whose only broadcast has timestamp 0: the store
  is not empty and 08:00 holds its maximum, yet no slot is returned.
\<close>

theorem findLatest_maximum_counterexample:
  "map_of (broadcasts (with_broadcasts [(''08:00'', demo_broadcast ''08:00'' 0)])) ''08:00''
     = Some (demo_broadcast ''08:00'' 0)
   \<and> findLatestBroadcast (with_broadcasts [(''08:00'', demo_broadcast ''08:00'' 0)]) = None"
  by (simp add: findLatestBroadcast_def with_broadcasts_def initial_state_def
        CONFIG_SLOTS_def demo_broadcast_def)

text \<open>
  C10. The running maximum starts at the sentinel 0 and is compared with strict
  greater-than: on a non-empty store in which every broadcast has a timestamp of at
  most 0 the function returns none, and a slot that is returned holds a broadcast with
  a strictly positive timestamp.
\<close>

theorem findLatest_sentinel_zero:
  "(broadcasts st \<noteq> [] \<and> (\<forall>k b. map_of (broadcasts st) k = Some b \<longrightarrow> timestamp b \<le> 0)
      \<longrightarrow> findLatestBroadcast st = None)
   \<and> (\<forall>l. findLatestBroadcast st = Some l \<longrightarrow>
         (\<exists>b. map_of (broadcasts st) l = Some b \<and> 0 < timestamp b))"
proof -
  have "findLatestBroadcast st = None"
    if "\<forall>k b. map_of (broadcasts st) k = Some b \<longrightarrow> timestamp b \<le> 0"
    unfolding findLatestBroadcast_def using that
    by (intro findLatest_loop_unchanged) blast
  moreover have "\<exists>b. map_of (broadcasts st) l = Some b \<and> 0 < timestamp b"
    if "findLatestBroadcast st = Some l" for l
    using findLatest_loop_cases[of "broadcasts st" CONFIG_SLOTS None 0] that
    unfolding findLatestBroadcast_def by auto
  ultimately show ?thesis by blast
qed

theorem findLatest_sentinel_zero_witness:
  "broadcasts (with_broadcasts [(''08:00'', demo_broadcast ''08:00'' (- 5)),
                                (''12:30'', demo_broadcast ''12:30'' 0)]) \<noteq> []
   \<and> findLatestBroadcast (with_broadcasts [(''08:00'', demo_broadcast ''08:00'' (- 5)),
                                (''12:30'', demo_broadcast ''12:30'' 0)]) = None
   \<and> findLatestBroadcast (with_broadcasts [(''16:45'', demo_broadcast ''16:45'' 7)])
       = Some ''16:45''
   \<and> (\<exists>b. map_of (broadcasts (with_broadcasts [(''16:45'', demo_broadcast ''16:45'' 7)])) ''16:45''
            = Some b \<and> 0 < timestamp b)"
proof -
  let ?neg = "with_broadcasts [(''08:00'', demo_broadcast ''08:00'' (- 5)),
                               (''12:30'', demo_broadcast ''12:30'' 0)]"
  let ?pos = "with_broadcasts [(''16:45'', demo_broadcast ''16:45'' 7)]"
  have ne: "broadcasts ?neg \<noteq> []" by (simp add: with_broadcasts_def)
  have le: "\<forall>k b. map_of (broadcasts ?neg) k = Some b \<longrightarrow> timestamp b \<le> 0"
    by (auto simp: with_broadcasts_def demo_broadcast_def split: if_splits)
  have n: "findLatestBroadcast ?neg = None"
    using findLatest_sentinel_zero [of ?neg] ne le by blast
  have p: "findLatestBroadcast ?pos = Some ''16:45''"
    by (simp add: findLatestBroadcast_def with_broadcasts_def initial_state_def
          CONFIG_SLOTS_def demo_broadcast_def)
  have "\<exists>b. map_of (broadcasts ?pos) ''16:45'' = Some b \<and> 0 < timestamp b"
    using findLatest_sentinel_zero [of ?pos] p by blast
  with ne n p show ?thesis by blast
qed

section \<open>The poll interval\<close>

lemma pollInterval_loop_idle:
  "(\<forall>s\<in>set ss. \<not> (map_of bs (time s) = None \<and> 0 \<le> cur - pollStartMinutes s
        \<and> cur - pollStartMinutes s \<le> EXTENDED_WINDOW))
   \<Longrightarrow> pollInterval_loop bs cur ss = POLL_INTERVALS_IDLE"
  by (induction ss) (auto simp: Let_def ACTIVE_WINDOW_def EXTENDED_WINDOW_def)

lemma pollInterval_loop_first:
  "i < length ss \<Longrightarrow>
   map_of bs (time (ss ! i)) = None \<Longrightarrow> 0 \<le> cur - pollStartMinutes (ss ! i) \<Longrightarrow>
   cur - pollStartMinutes (ss ! i) \<le> EXTENDED_WINDOW \<Longrightarrow>
   (\<forall>j<i. \<not> (map_of bs (time (ss ! j)) = None \<and> 0 \<le> cur - pollStartMinutes (ss ! j)
        \<and> cur - pollStartMinutes (ss ! j) \<le> EXTENDED_WINDOW)) \<Longrightarrow>
   pollInterval_loop bs cur ss =
     (if cur - pollStartMinutes (ss ! i) \<le> ACTIVE_WINDOW then POLL_INTERVALS_ACTIVE
      else POLL_INTERVALS_EXTENDED)"
proof (induction ss arbitrary: i)
  case Nil
  then show ?case by simp
next
  case (Cons s ss)
  show ?case
  proof (cases i)
    case 0
    with Cons.prems show ?thesis
      by (simp add: Let_def)
  next
    case (Suc k)
    have skip: "\<not> (map_of bs (time s) = None \<and> 0 \<le> cur - pollStartMinutes s
        \<and> cur - pollStartMinutes s \<le> EXTENDED_WINDOW)"
      using Cons.prems(5) Suc by (metis nth_Cons_0 zero_less_Suc)
    have rest: "\<forall>j<k. \<not> (map_of bs (time (ss ! j)) = None \<and> 0 \<le> cur - pollStartMinutes (ss ! j)
        \<and> cur - pollStartMinutes (ss ! j) \<le> EXTENDED_WINDOW)"
    proof (intro allI impI)
      fix j assume "j < k"
      then have "Suc j < i" using Suc by simp
      from Cons.prems(5)[rule_format, OF this] show "\<not> (map_of bs (time (ss ! j)) = None \<and> 0 \<le> cur - pollStartMinutes (ss ! j)
        \<and> cur - pollStartMinutes (ss ! j) \<le> EXTENDED_WINDOW)" by simp
    qed
    have "pollInterval_loop bs cur (s # ss) = pollInterval_loop bs cur ss"
      using skip by (auto simp: Let_def ACTIVE_WINDOW_def EXTENDED_WINDOW_def)
    also have "\<dots> = (if cur - pollStartMinutes (ss ! k) \<le> ACTIVE_WINDOW then POLL_INTERVALS_ACTIVE
      else POLL_INTERVALS_EXTENDED)"
      using Cons.prems(1-4) Suc rest by (intro Cons.IH) auto
    finally show ?thesis using Suc by simp
  qed
qed

text \<open>
  C2. \<^verbatim>\<open>calculatePollInterval\<close> walks the slots in configured order. With
  \<open>diff\<close> the current minute of the day minus the slot's poll start, the first slot
  that is absent from the store and has \<open>0 \<le> diff \<le> EXTENDED_WINDOW\<close> decides: the
  ACTIVE interval when \<open>diff \<le> ACTIVE_WINDOW\<close>, the EXTENDED interval when
  \<open>ACTIVE_WINDOW < diff\<close>; slots that are present or outside both windows are passed
  over; when no slot qualifies the result is the IDLE interval. With the 08:00 slot
  absent (poll start 08:20) the result is ACTIVE at 08:25, EXTENDED at 08:35 and IDLE
  at 08:55.
\<close>

theorem calculatePollInterval_windows:
  "(\<forall>i<length CONFIG_SLOTS.
      map_of (broadcasts st) (time (CONFIG_SLOTS ! i)) = None \<and>
      0 \<le> (h * 60 + m) - pollStartMinutes (CONFIG_SLOTS ! i) \<and>
      (h * 60 + m) - pollStartMinutes (CONFIG_SLOTS ! i) \<le> EXTENDED_WINDOW \<and>
      (\<forall>j<i. \<not> (map_of (broadcasts st) (time (CONFIG_SLOTS ! j)) = None \<and>
                 0 \<le> (h * 60 + m) - pollStartMinutes (CONFIG_SLOTS ! j) \<and>
                 (h * 60 + m) - pollStartMinutes (CONFIG_SLOTS ! j) \<le> EXTENDED_WINDOW))
      \<longrightarrow> calculatePollInterval h m st =
            (if (h * 60 + m) - pollStartMinutes (CONFIG_SLOTS ! i) \<le> ACTIVE_WINDOW
             then POLL_INTERVALS_ACTIVE else POLL_INTERVALS_EXTENDED))
   \<and> ((\<forall>s\<in>set CONFIG_SLOTS.
          \<not> (map_of (broadcasts st) (time s) = None \<and>
             0 \<le> (h * 60 + m) - pollStartMinutes s \<and>
             (h * 60 + m) - pollStartMinutes s \<le> EXTENDED_WINDOW))
        \<longrightarrow> calculatePollInterval h m st = POLL_INTERVALS_IDLE)
   \<and> (map_of (broadcasts st) ''08:00'' = None \<longrightarrow>
        calculatePollInterval 8 25 st = POLL_INTERVALS_ACTIVE \<and>
        calculatePollInterval 8 35 st = POLL_INTERVALS_EXTENDED \<and>
        calculatePollInterval 8 55 st = POLL_INTERVALS_IDLE)"
proof -
  have a: "calculatePollInterval h m st =
            (if (h * 60 + m) - pollStartMinutes (CONFIG_SLOTS ! i) \<le> ACTIVE_WINDOW
             then POLL_INTERVALS_ACTIVE else POLL_INTERVALS_EXTENDED)"
    if "i < length CONFIG_SLOTS"
      "map_of (broadcasts st) (time (CONFIG_SLOTS ! i)) = None"
      "0 \<le> (h * 60 + m) - pollStartMinutes (CONFIG_SLOTS ! i)"
      "(h * 60 + m) - pollStartMinutes (CONFIG_SLOTS ! i) \<le> EXTENDED_WINDOW"
      "\<forall>j<i. \<not> (map_of (broadcasts st) (time (CONFIG_SLOTS ! j)) = None \<and>
                 0 \<le> (h * 60 + m) - pollStartMinutes (CONFIG_SLOTS ! j) \<and>
                 (h * 60 + m) - pollStartMinutes (CONFIG_SLOTS ! j) \<le> EXTENDED_WINDOW)" for i
    unfolding calculatePollInterval_def using that by (rule pollInterval_loop_first)
  have b: "calculatePollInterval h m st = POLL_INTERVALS_IDLE"
    if "\<forall>s\<in>set CONFIG_SLOTS.
          \<not> (map_of (broadcasts st) (time s) = None \<and>
             0 \<le> (h * 60 + m) - pollStartMinutes s \<and>
             (h * 60 + m) - pollStartMinutes s \<le> EXTENDED_WINDOW)"
    unfolding calculatePollInterval_def using that by (rule pollInterval_loop_idle)
  have c: "calculatePollInterval 8 25 st = POLL_INTERVALS_ACTIVE \<and>
        calculatePollInterval 8 35 st = POLL_INTERVALS_EXTENDED \<and>
        calculatePollInterval 8 55 st = POLL_INTERVALS_IDLE"
    if "map_of (broadcasts st) ''08:00'' = None"
    using that
    by (simp add: calculatePollInterval_def CONFIG_SLOTS_def pollStartMinutes_def Let_def
          ACTIVE_WINDOW_def EXTENDED_WINDOW_def)
  from a b c show ?thesis by blast
qed

theorem calculatePollInterval_windows_witness:
  "map_of (broadcasts (with_broadcasts [])) ''08:00'' = None
   \<and> calculatePollInterval 8 25 (with_broadcasts []) = 60000
   \<and> calculatePollInterval 8 35 (with_broadcasts []) = 300000
   \<and> calculatePollInterval 8 55 (with_broadcasts []) = 1800000
   \<and> calculatePollInterval 13 5 (with_broadcasts [(''12:30'', demo_broadcast ''12:30'' 200)]) = 1800000
   \<and> calculatePollInterval 13 5 (with_broadcasts [(''08:00'', demo_broadcast ''08:00'' 100)]) = 60000"
proof -
  have abs: "map_of (broadcasts (with_broadcasts [])) ''08:00'' = None"
    by (simp add: with_broadcasts_def)
  have "calculatePollInterval 8 25 (with_broadcasts []) = POLL_INTERVALS_ACTIVE \<and>
        calculatePollInterval 8 35 (with_broadcasts []) = POLL_INTERVALS_EXTENDED \<and>
        calculatePollInterval 8 55 (with_broadcasts []) = POLL_INTERVALS_IDLE"
    using calculatePollInterval_windows [of "with_broadcasts []" 8 25] abs by blast
  moreover have "calculatePollInterval 13 5 (with_broadcasts [(''12:30'', demo_broadcast ''12:30'' 200)]) = 1800000"
    by (simp add: calculatePollInterval_def CONFIG_SLOTS_def pollStartMinutes_def Let_def
          ACTIVE_WINDOW_def EXTENDED_WINDOW_def with_broadcasts_def POLL_INTERVALS_IDLE_def)
  moreover have "calculatePollInterval 13 5 (with_broadcasts [(''08:00'', demo_broadcast ''08:00'' 100)]) = 60000"
    by (simp add: calculatePollInterval_def CONFIG_SLOTS_def pollStartMinutes_def Let_def
          ACTIVE_WINDOW_def EXTENDED_WINDOW_def with_broadcasts_def POLL_INTERVALS_ACTIVE_def)
  ultimately show ?thesis using abs
    by (simp add: POLL_INTERVALS_ACTIVE_def POLL_INTERVALS_EXTENDED_def POLL_INTERVALS_IDLE_def)
qed

section \<open>Shared facts about the operations\<close>

lemmas op_defs =
  setTimeout_def clearTimeout_def showStatus_def media_play_def media_pause_def
  media_set_src_def stopAudioFocusKeepAlive_def startAudioFocusKeepAlive_def
  playBroadcast_def stopPlayback_def togglePlayPause_def audioFocusTimeout_def
  resetForNewDay_def checkDayChange_def updateBroadcasts_begin_def
  updateBroadcasts_resume_def schedulePoll_def pollCallback_begin_def
  pollCallback_resume_def fire_timer_def on_ended_def on_error_def
  mediaSession_play_def mediaSession_pause_def mediaSession_stop_def
  midnightCheck_def init_begin_def

lemmas demo_defs =
  demo_loaded_def demo_playing_def demo_paused_def demo_broadcast_def with_broadcasts_def
  initial_state_def calculatePollInterval_def findLatestBroadcast_def CONFIG_SLOTS_def
  pollStartMinutes_def ACTIVE_WINDOW_def EXTENDED_WINDOW_def POLL_INTERVALS_IDLE_def
  POLL_INTERVALS_ACTIVE_def POLL_INTERVALS_EXTENDED_def AUDIO_FOCUS_TIMEOUT_def
  Object_assign_def status_def loaded_def src_property_empty_def

lemma loaded_simps [simp]:
  "loaded \<lparr>src = a, paused = p\<rparr> \<longleftrightarrow> (\<exists>u. a = Some u \<and> u \<noteq> [])"
  "loaded (m\<lparr>paused := p\<rparr>) = loaded m"
  "loaded (media_pause m) = loaded m"
  "loaded (media_play oc m) = loaded m"
  "loaded (media_set_src u m) \<longleftrightarrow> u \<noteq> []"
  by (auto simp: loaded_def media_pause_def media_play_def media_set_src_def
        split: option.splits play_outcome.splits)

lemma loaded_src: "loaded m \<Longrightarrow> \<not> src_property_empty m"
  by (auto simp: loaded_def src_property_empty_def split: option.splits)

section \<open>Merging fetched broadcasts\<close>

lemma Object_assign_Nil [simp]: "Object_assign t [] = t"
  by (simp add: Object_assign_def)

lemma Object_assign_Cons [simp]:
  "Object_assign t ((k, v) # s) = Object_assign (AList.update k v t) s"
  by (simp add: Object_assign_def)

lemma distinct_Object_assign:
  "distinct (map fst t) \<Longrightarrow> distinct (map fst (Object_assign t s))"
  by (induction s arbitrary: t) (auto simp: distinct_update)

lemma map_of_Object_assign:
  "distinct (map fst s) \<Longrightarrow>
   map_of (Object_assign t s) k = (case map_of s k of Some b \<Rightarrow> Some b | None \<Rightarrow> map_of t k)"
proof (induction s arbitrary: t)
  case Nil
  then show ?case by simp
next
  case (Cons p s)
  obtain k' v where p: "p = (k', v)" by (cases p)
  from Cons.prems p have d: "distinct (map fst s)" and nin: "k' \<notin> fst ` set s" by auto
  have "map_of s k' = None" using nin by (simp add: map_of_eq_None_iff)
  then show ?case using Cons.IH[OF d, of "AList.update k' v t"] p
    by (auto simp: update_conv' split: option.splits)
qed

lemma broadcasts_step:
  "broadcasts (step e st) = broadcasts st \<or> broadcasts (step e st) = []
   \<or> (\<exists>inc. broadcasts (step e st) = Object_assign (broadcasts st) inc)
   \<or> (\<exists>inc. broadcasts (step e st) = Object_assign [] inc)"
  by (cases e)
     (auto simp: op_defs Let_def
           split: option.splits if_splits play_outcome.splits fetch_result.splits
                  prod.splits timer_callback.splits)

lemma distinct_step:
  "distinct (map fst (broadcasts st)) \<Longrightarrow> distinct (map fst (broadcasts (step e st)))"
  using broadcasts_step[of e st] by (auto simp: distinct_Object_assign)

lemma distinct_run:
  "distinct (map fst (broadcasts st)) \<Longrightarrow> distinct (map fst (broadcasts (run es st)))"
  by (induction es arbitrary: st) (auto simp: distinct_step)

text \<open>
  C3. The store never holds two broadcasts for one slot: the keys of
  \<^verbatim>\<open>state.broadcasts\<close> are distinct after any sequence of settled fetches, and in
  every state the app reaches from its initial state. A merge writes every incoming
  entry over the entry of its slot, whatever the two timestamps are, and leaves the
  slots without an incoming entry as they were. (The incoming broadcasts are an object
  that \<^verbatim>\<open>parseRss\<close> built, so their keys are distinct.)
\<close>

theorem merge_last_fetched_wins:
  "(distinct (map fst (broadcasts st)) \<longrightarrow>
      distinct (map fst (broadcasts (run (map (\<lambda>(r, d). UpdateFetchSettled r d) fetches) st))))
   \<and> distinct (map fst (broadcasts (run es initial_state)))
   \<and> (distinct (map fst incoming) \<longrightarrow>
        (\<forall>k. map_of (broadcasts (updateBroadcasts_resume (Fetched incoming) d st)) k =
              (case map_of incoming k of
                 Some b \<Rightarrow> Some b
               | None \<Rightarrow> map_of (broadcasts st) k)))"
proof -
  have "distinct (map fst (broadcasts (run es initial_state)))"
    by (rule distinct_run) (simp add: initial_state_def)
  moreover have "map_of (broadcasts (updateBroadcasts_resume (Fetched incoming) d st)) k =
              (case map_of incoming k of Some b \<Rightarrow> Some b | None \<Rightarrow> map_of (broadcasts st) k)"
    if "distinct (map fst incoming)" for k
    using map_of_Object_assign[OF that] by (simp add: updateBroadcasts_resume_def)
  ultimately show ?thesis using distinct_run by blast
qed

text \<open>
  On the loaded store (08:00 at timestamp 100), a fetch that returns 08:00 with the
  older timestamp 50 and 12:30 replaces 08:00 and adds 12:30.
\<close>

theorem merge_last_fetched_wins_witness:
  "distinct (map fst (broadcasts demo_loaded))
   \<and> distinct (map fst [(''08:00'', demo_broadcast ''08:00'' 50), (''12:30'', demo_broadcast ''12:30'' 200)])
   \<and> map_of (broadcasts demo_loaded) ''08:00'' = Some (demo_broadcast ''08:00'' 100)
   \<and> map_of (broadcasts (updateBroadcasts_resume
        (Fetched [(''08:00'', demo_broadcast ''08:00'' 50), (''12:30'', demo_broadcast ''12:30'' 200)])
        ''2026-11-02'' demo_loaded)) ''08:00'' = Some (demo_broadcast ''08:00'' 50)
   \<and> distinct (map fst (broadcasts (run (map (\<lambda>(r, d). UpdateFetchSettled r d)
        [(Fetched [(''08:00'', demo_broadcast ''08:00'' 50)], ''2026-11-02''),
         (FetchFailed, ''2026-11-02'')]) demo_loaded)))"
proof -
  let ?inc = "[(''08:00'', demo_broadcast ''08:00'' 50), (''12:30'', demo_broadcast ''12:30'' 200)]"
  have d0: "distinct (map fst (broadcasts demo_loaded))"
    by (simp add: demo_defs op_defs Let_def)
  have d1: "distinct (map fst ?inc)" by simp
  have l0: "map_of (broadcasts demo_loaded) ''08:00'' = Some (demo_broadcast ''08:00'' 100)"
    by (simp add: demo_defs op_defs Let_def)
  note T = merge_last_fetched_wins [of demo_loaded
      "[(Fetched [(''08:00'', demo_broadcast ''08:00'' 50)], ''2026-11-02''), (FetchFailed, ''2026-11-02'')]"
      "[]" ?inc "''2026-11-02''"]
  have "map_of (broadcasts (updateBroadcasts_resume (Fetched ?inc) ''2026-11-02'' demo_loaded)) ''08:00''
        = Some (demo_broadcast ''08:00'' 50)"
    using T d1 by simp
  moreover have "distinct (map fst (broadcasts (run (map (\<lambda>(r, d). UpdateFetchSettled r d)
        [(Fetched [(''08:00'', demo_broadcast ''08:00'' 50)], ''2026-11-02''),
         (FetchFailed, ''2026-11-02'')]) demo_loaded)))"
    using T d0 by blast
  ultimately show ?thesis using d0 d1 l0 by blast
qed

section \<open>Day change\<close>

text \<open>
  \<^verbatim>\<open>checkDayChange\<close> where a date is stored (\<^verbatim>\<open>init\<close> stores one before anything
  calls it): a stored date that differs from today gives true, an empty store, stopped
  playback with no current slot, and today as the stored date, and a second call on
  the same day gives false and changes nothing; an equal stored date gives false and
  changes nothing.
\<close>

lemma checkDayChange_stored_date:
  "(lastFetchDate st = Some d \<and> d \<noteq> [] \<and> d \<noteq> today \<longrightarrow>
      fst (checkDayChange today st) = True \<and>
      broadcasts (snd (checkDayChange today st)) = [] \<and>
      currentSlot (snd (checkDayChange today st)) = None \<and>
      status (snd (checkDayChange today st)) = Stopped \<and>
      lastFetchDate (snd (checkDayChange today st)) = Some today \<and>
      checkDayChange today (snd (checkDayChange today st))
        = (False, snd (checkDayChange today st)))
   \<and> (lastFetchDate st = Some today \<longrightarrow> checkDayChange today st = (False, st))"
  by (auto simp: checkDayChange_def resetForNewDay_def stopPlayback_def
        stopAudioFocusKeepAlive_def clearTimeout_def media_set_src_def media_pause_def
        status_def loaded_def Let_def split: option.splits)

text \<open>
  The stored date is also written where nothing is reset: \<^verbatim>\<open>updateBroadcasts\<close>
  assigns it after the awaited fetch. When the day check of a poll ran on the old day
  and the fetch settles on the new one, the new date is stored over the old one while
  the store keeps the old day's broadcasts.
\<close>

lemma fetch_over_midnight:
  assumes "lastFetchDate st = Some d" "d \<noteq> new_day"
  shows "fst (checkDayChange d st) = False"
    and "lastFetchDate (updateBroadcasts_resume (Fetched incoming) new_day
           (updateBroadcasts_begin d st)) = Some new_day"
    and "broadcasts (updateBroadcasts_resume (Fetched incoming) new_day
           (updateBroadcasts_begin d st)) = Object_assign (broadcasts st) incoming"
    and "currentSlot (updateBroadcasts_resume (Fetched incoming) new_day
           (updateBroadcasts_begin d st)) = currentSlot st"
    and "fst (checkDayChange new_day (updateBroadcasts_resume (Fetched incoming) new_day
           (updateBroadcasts_begin d st))) = False"
  using assms
  by (simp_all add: checkDayChange_def updateBroadcasts_begin_def updateBroadcasts_resume_def)

text \<open>
  C4. The reset does not fire once per day-boundary crossing. On 2 November the 08:00
  broadcast is in the store and playing; the poll timer fires before midnight, so the
  day check of \<^verbatim>\<open>updateBroadcasts\<close> sees no change; the fetch settles after midnight
  and \<^verbatim>\<open>updateBroadcasts\<close> stores 3 November as the date. The store still holds the
  broadcast of 2 November and the current slot is still 08:00; the day check on
  3 November returns false, and so does the midnight check: for this crossing the reset
  never fires.
\<close>

theorem midnight_fetch_skips_reset:
  "lastFetchDate demo_playing = Some ''2026-11-02''
   \<and> map_of (broadcasts demo_playing) ''08:00'' = Some (demo_broadcast ''08:00'' 100)
   \<and> lastFetchDate demo_midnight = Some ''2026-11-03''
   \<and> map_of (broadcasts demo_midnight) ''08:00'' = Some (demo_broadcast ''08:00'' 100)
   \<and> currentSlot demo_midnight = Some ''08:00''
   \<and> status demo_midnight = Playing
   \<and> checkDayChange ''2026-11-03'' demo_midnight = (False, demo_midnight)
   \<and> step (MidnightTick ''2026-11-03'') demo_midnight = demo_midnight"
  by (simp add: demo_midnight_def demo_defs op_defs Let_def)

section \<open>Playback requests\<close>

text \<open>
  C6. \<^verbatim>\<open>playBroadcast\<close> on a slot that has no broadcast in the store, or whose
  broadcast has an empty \<^verbatim>\<open>audioUrl\<close>, shows the error message "no broadcast
  available" and changes nothing else: the store, the current slot, the audio elements,
  the playback status and both timer handles are as before the call. Only the status
  message and the timer that hides it are new.
\<close>

theorem playBroadcast_missing_no_mutation:
  "map_of (broadcasts st) slot = None
     \<or> (\<exists>b. map_of (broadcasts st) slot = Some b \<and> audioUrl b = []) \<Longrightarrow>
   notices (playBroadcast slot oc st)
     = notices st @ [\<lparr>msg = NoBroadcastAvailable, isError = True\<rparr>]
   \<and> (playBroadcast slot oc st)
        \<lparr>notices := notices st, timers := timers st, nextTimerId := nextTimerId st\<rparr> = st
   \<and> filter (\<lambda>t. callback t \<noteq> HideStatusCallback) (timers (playBroadcast slot oc st))
        = filter (\<lambda>t. callback t \<noteq> HideStatusCallback) (timers st)
   \<and> currentSlot (playBroadcast slot oc st) = currentSlot st
   \<and> status (playBroadcast slot oc st) = status st
   \<and> broadcasts (playBroadcast slot oc st) = broadcasts st"
  by (auto simp: playBroadcast_def showStatus_def setTimeout_def status_def)

theorem playBroadcast_missing_no_mutation_witness:
  "map_of (broadcasts demo_playing) ''12:30'' = None
   \<and> currentSlot (playBroadcast ''12:30'' Accepted demo_playing) = Some ''08:00''
   \<and> status (playBroadcast ''12:30'' Accepted demo_playing) = Playing
   \<and> broadcasts (playBroadcast ''12:30'' Accepted demo_playing) = broadcasts demo_playing
   \<and> currentSlot (playBroadcast ''08:00'' Accepted
        (with_broadcasts [(''08:00'', (demo_broadcast ''08:00'' 100)\<lparr>audioUrl := []\<rparr>)])) = None"
proof -
  let ?nourl = "with_broadcasts [(''08:00'', (demo_broadcast ''08:00'' 100)\<lparr>audioUrl := []\<rparr>)]"
  have a: "map_of (broadcasts demo_playing) ''12:30'' = None"
    by (simp add: demo_defs op_defs Let_def)
  have b: "currentSlot demo_playing = Some ''08:00''" "status demo_playing = Playing"
    by (simp_all add: demo_defs op_defs Let_def)
  have c: "\<exists>b. map_of (broadcasts ?nourl) ''08:00'' = Some b \<and> audioUrl b = []"
    by (simp add: with_broadcasts_def)
  have d: "currentSlot ?nourl = None"
    by (simp add: with_broadcasts_def initial_state_def)
  show ?thesis
    using playBroadcast_missing_no_mutation [of demo_playing "''12:30''" Accepted]
          playBroadcast_missing_no_mutation [of ?nourl "''08:00''" Accepted] a b c d
    by simp
qed

section \<open>The timer table\<close>

lemma timers_okI:
  assumes "0 < nextTimerId st"
    and "\<And>t. t \<in> set (timers st) \<Longrightarrow> 0 < tid t \<and> tid t < nextTimerId st"
    and "distinct (map tid (timers st))"
    and "\<And>t. t \<in> set (timers st) \<Longrightarrow> callback t = PollCallback \<Longrightarrow> pollTimer st = Some (tid t)"
    and "\<And>t. t \<in> set (timers st) \<Longrightarrow> callback t = AudioFocusCallback \<Longrightarrow>
           audioFocusTimer st = Some (tid t) \<and> delay t = AUDIO_FOCUS_TIMEOUT"
    and "\<And>i. pollTimer st = Some i \<Longrightarrow> 0 < i \<and> i < nextTimerId st"
    and "\<And>i t. pollTimer st = Some i \<Longrightarrow> t \<in> set (timers st) \<Longrightarrow> tid t = i \<Longrightarrow>
           callback t = PollCallback"
    and "\<And>i. audioFocusTimer st = Some i \<Longrightarrow> 0 < i \<and> i < nextTimerId st \<and>
           (\<exists>t\<in>set (timers st). tid t = i \<and> callback t = AudioFocusCallback)"
  shows "timers_ok st"
  unfolding timers_ok_def using assms by blast

lemma timers_okD:
  assumes "timers_ok st"
  shows "0 < nextTimerId st"
    and "t \<in> set (timers st) \<Longrightarrow> 0 < tid t"
    and "t \<in> set (timers st) \<Longrightarrow> tid t < nextTimerId st"
    and "distinct (map tid (timers st))"
    and "t \<in> set (timers st) \<Longrightarrow> callback t = PollCallback \<Longrightarrow> pollTimer st = Some (tid t)"
    and "t \<in> set (timers st) \<Longrightarrow> callback t = AudioFocusCallback \<Longrightarrow>
           audioFocusTimer st = Some (tid t)"
    and "t \<in> set (timers st) \<Longrightarrow> callback t = AudioFocusCallback \<Longrightarrow>
           delay t = AUDIO_FOCUS_TIMEOUT"
    and "pollTimer st = Some i \<Longrightarrow> 0 < i"
    and "pollTimer st = Some i \<Longrightarrow> i < nextTimerId st"
    and "pollTimer st = Some i \<Longrightarrow> t \<in> set (timers st) \<Longrightarrow> tid t = i \<Longrightarrow>
           callback t = PollCallback"
    and "audioFocusTimer st = Some i \<Longrightarrow> 0 < i"
    and "audioFocusTimer st = Some i \<Longrightarrow> i < nextTimerId st"
    and "audioFocusTimer st = Some i \<Longrightarrow>
           \<exists>t\<in>set (timers st). tid t = i \<and> callback t = AudioFocusCallback"
  using assms unfolding timers_ok_def by blast+

lemma same_tid_same_timer:
  assumes "timers_ok st" "t \<in> set (timers st)" "u \<in> set (timers st)" "tid t = tid u"
  shows "t = u"
proof -
  have "inj_on tid (set (timers st))"
    using timers_okD(4)[OF assms(1)] by (simp add: distinct_map)
  then show ?thesis using assms(2-4) by (auto dest: inj_onD)
qed

text \<open>Registering a timer under the next id.\<close>

lemma timers_ok_add:
  assumes ok: "timers_ok st"
    and tm: "timers st' = timers st @ [\<lparr>tid = nextTimerId st, callback = cb, delay = d\<rparr>]"
    and nx: "nextTimerId st' = Suc (nextTimerId st)"
    and p1: "cb = PollCallback \<Longrightarrow> \<forall>t\<in>set (timers st). callback t \<noteq> PollCallback"
    and p2: "pollTimer st' = (if cb = PollCallback then Some (nextTimerId st) else pollTimer st)"
    and a1: "cb = AudioFocusCallback \<Longrightarrow> audioFocusTimer st = None \<and> d = AUDIO_FOCUS_TIMEOUT"
    and a2: "audioFocusTimer st' =
               (if cb = AudioFocusCallback then Some (nextTimerId st) else audioFocusTimer st)"
  shows "timers_ok st'"
proof -
  let ?new = "\<lparr>tid = nextTimerId st, callback = cb, delay = d\<rparr>"
  have mem: "t \<in> set (timers st') \<longleftrightarrow> t \<in> set (timers st) \<or> t = ?new" for t
    by (auto simp: tm)
  note pos = timers_okD(1)[OF ok]
  have fresh: "tid t \<noteq> nextTimerId st" if "t \<in> set (timers st)" for t
    using timers_okD(3)[OF ok that] by simp
  show ?thesis
  proof (rule timers_okI)
    show "0 < nextTimerId st'" by (simp add: nx)
  next
    fix t assume "t \<in> set (timers st')"
    then consider "t \<in> set (timers st)" | "t = ?new" unfolding mem by blast
    then show "0 < tid t \<and> tid t < nextTimerId st'"
    proof cases
      case 1
      from timers_okD(2,3)[OF ok 1] show ?thesis by (simp add: nx)
    next
      case 2
      with pos show ?thesis by (simp add: nx)
    qed
  next
    have "nextTimerId st \<notin> tid ` set (timers st)"
      by (auto dest: fresh)
    then show "distinct (map tid (timers st'))"
      using timers_okD(4)[OF ok] by (simp add: tm)
  next
    fix t assume a: "t \<in> set (timers st')" "callback t = PollCallback"
    then consider "t \<in> set (timers st)" | "t = ?new" unfolding mem by blast
    then show "pollTimer st' = Some (tid t)"
    proof cases
      case 1
      have "cb \<noteq> PollCallback" using p1 1 a(2) by blast
      with timers_okD(5)[OF ok 1 a(2)] show ?thesis by (simp add: p2)
    next
      case 2
      with a(2) show ?thesis by (simp add: p2)
    qed
  next
    fix t assume a: "t \<in> set (timers st')" "callback t = AudioFocusCallback"
    then consider "t \<in> set (timers st)" | "t = ?new" unfolding mem by blast
    then show "audioFocusTimer st' = Some (tid t) \<and> delay t = AUDIO_FOCUS_TIMEOUT"
    proof cases
      case 1
      from timers_okD(6,7)[OF ok 1 a(2)]
      have h: "audioFocusTimer st = Some (tid t)" "delay t = AUDIO_FOCUS_TIMEOUT" .
      then have "cb \<noteq> AudioFocusCallback" using a1 by auto
      with h show ?thesis by (simp add: a2)
    next
      case 2
      with a(2) a1 show ?thesis by (simp add: a2)
    qed
  next
    fix i assume h: "pollTimer st' = Some i"
    show "0 < i \<and> i < nextTimerId st'"
    proof (cases "cb = PollCallback")
      case True
      with h pos show ?thesis by (simp add: p2 nx)
    next
      case False
      with h have "pollTimer st = Some i" by (simp add: p2)
      from timers_okD(8,9)[OF ok this] show ?thesis by (simp add: nx)
    qed
  next
    fix i t assume a: "pollTimer st' = Some i" "t \<in> set (timers st')" "tid t = i"
    show "callback t = PollCallback"
    proof (cases "cb = PollCallback")
      case True
      with a(1) have "i = nextTimerId st" by (simp add: p2)
      with a(2,3) fresh have "t = ?new" unfolding mem by blast
      with True show ?thesis by simp
    next
      case False
      with a(1) have h: "pollTimer st = Some i" by (simp add: p2)
      from timers_okD(9)[OF ok h] a(2,3) have "t \<in> set (timers st)" unfolding mem by auto
      from timers_okD(10)[OF ok h this a(3)] show ?thesis .
    qed
  next
    fix i assume h': "audioFocusTimer st' = Some i"
    show "0 < i \<and> i < nextTimerId st' \<and>
           (\<exists>t\<in>set (timers st'). tid t = i \<and> callback t = AudioFocusCallback)"
    proof (cases "cb = AudioFocusCallback")
      case True
      with h' have "i = nextTimerId st" by (simp add: a2)
      moreover have "\<exists>t\<in>set (timers st'). tid t = nextTimerId st \<and> callback t = AudioFocusCallback"
        using True by (intro bexI[of _ ?new]) (simp_all add: tm)
      ultimately show ?thesis using pos by (simp add: nx)
    next
      case False
      with h' have h: "audioFocusTimer st = Some i" by (simp add: a2)
      from timers_okD(13)[OF ok h] obtain t where
        "t \<in> set (timers st)" "tid t = i" "callback t = AudioFocusCallback" by blast
      then have "\<exists>t\<in>set (timers st'). tid t = i \<and> callback t = AudioFocusCallback"
        by (auto simp: tm)
      with timers_okD(11,12)[OF ok h] show ?thesis by (simp add: nx)
    qed
  qed
qed

text \<open>Taking the timer with id \<open>i\<close> out of the table.\<close>

lemma timers_ok_remove:
  assumes ok: "timers_ok st"
    and tm: "timers st' = filter (\<lambda>t. tid t \<noteq> i) (timers st)"
    and nx: "nextTimerId st' = nextTimerId st"
    and p: "pollTimer st' = pollTimer st"
    and a: "audioFocusTimer st' = (if audioFocusTimer st = Some i then None else audioFocusTimer st)"
  shows "timers_ok st'"
proof (rule timers_okI)
  show "0 < nextTimerId st'" using timers_okD(1)[OF ok] by (simp add: nx)
next
  fix t assume "t \<in> set (timers st')"
  then have "t \<in> set (timers st)" by (simp add: tm)
  from timers_okD(2,3)[OF ok this] show "0 < tid t \<and> tid t < nextTimerId st'"
    by (simp add: nx)
next
  show "distinct (map tid (timers st'))"
    using timers_okD(4)[OF ok] by (simp add: tm distinct_map_filter)
next
  fix t assume "t \<in> set (timers st')" "callback t = PollCallback"
  then have "t \<in> set (timers st)" by (simp add: tm)
  from timers_okD(5)[OF ok this \<open>callback t = PollCallback\<close>]
  show "pollTimer st' = Some (tid t)" by (simp add: p)
next
  fix t assume b: "t \<in> set (timers st')" "callback t = AudioFocusCallback"
  then have m: "t \<in> set (timers st)" and ne: "tid t \<noteq> i" by (simp_all add: tm)
  from timers_okD(6,7)[OF ok m b(2)] ne
  show "audioFocusTimer st' = Some (tid t) \<and> delay t = AUDIO_FOCUS_TIMEOUT"
    by (simp add: a)
next
  fix j assume "pollTimer st' = Some j"
  then have "pollTimer st = Some j" by (simp add: p)
  from timers_okD(8,9)[OF ok this] show "0 < j \<and> j < nextTimerId st'" by (simp add: nx)
next
  fix j t assume b: "pollTimer st' = Some j" "t \<in> set (timers st')" "tid t = j"
  then have h: "pollTimer st = Some j" and m: "t \<in> set (timers st)" by (simp_all add: p tm)
  from timers_okD(10)[OF ok h m b(3)] show "callback t = PollCallback" .
next
  fix j assume h': "audioFocusTimer st' = Some j"
  then have h: "audioFocusTimer st = Some j" and ne: "j \<noteq> i"
    by (auto simp: a split: if_splits)
  from timers_okD(13)[OF ok h] obtain t where
    "t \<in> set (timers st)" "tid t = j" "callback t = AudioFocusCallback" by blast
  with ne have "\<exists>t\<in>set (timers st'). tid t = j \<and> callback t = AudioFocusCallback"
    by (auto simp: tm)
  with timers_okD(11,12)[OF ok h]
  show "0 < j \<and> j < nextTimerId st' \<and>
         (\<exists>t\<in>set (timers st'). tid t = j \<and> callback t = AudioFocusCallback)"
    by (simp add: nx)
qed

lemma handles_differ:
  assumes "timers_ok st" "pollTimer st = Some i"
  shows "audioFocusTimer st \<noteq> Some i"
proof
  assume h: "audioFocusTimer st = Some i"
  from timers_okD(13)[OF assms(1) h] obtain t where
    t: "t \<in> set (timers st)" "tid t = i" "callback t = AudioFocusCallback" by blast
  from timers_okD(10)[OF assms(1,2) t(1,2)] t(3) show False by simp
qed

lemma timers_ok_fields [simp]:
  "timers_ok (st\<lparr>broadcasts := b\<rparr>) = timers_ok st"
  "timers_ok (st\<lparr>currentSlot := c\<rparr>) = timers_ok st"
  "timers_ok (st\<lparr>lastFetchDate := l\<rparr>) = timers_ok st"
  "timers_ok (st\<lparr>audioPlayer := a\<rparr>) = timers_ok st"
  "timers_ok (st\<lparr>silencePlayer := s\<rparr>) = timers_ok st"
  "timers_ok (st\<lparr>notices := n\<rparr>) = timers_ok st"
  by (simp_all add: timers_ok_def)

lemma timers_ok_initial: "timers_ok initial_state"
  by (simp add: timers_ok_def initial_state_def)

lemma timers_ok_showStatus: "timers_ok st \<Longrightarrow> timers_ok (showStatus m e st)"
  by (erule timers_ok_add[where cb = HideStatusCallback and d = 3000])
     (simp_all add: showStatus_def setTimeout_def)

lemma fields_showStatus [simp]:
  "audioFocusTimer (showStatus m e st) = audioFocusTimer st"
  "pollTimer (showStatus m e st) = pollTimer st"
  "audioPlayer (showStatus m e st) = audioPlayer st"
  "silencePlayer (showStatus m e st) = silencePlayer st"
  "currentSlot (showStatus m e st) = currentSlot st"
  "broadcasts (showStatus m e st) = broadcasts st"
  "lastFetchDate (showStatus m e st) = lastFetchDate st"
  "nextTimerId (showStatus m e st) = Suc (nextTimerId st)"
  "timers (showStatus m e st)
     = timers st @ [\<lparr>tid = nextTimerId st, callback = HideStatusCallback, delay = 3000\<rparr>]"
  by (simp_all add: showStatus_def setTimeout_def)

text \<open>
  In a state that satisfies the invariant the truthiness test of the handle cannot
  fail on a set handle, so \<^verbatim>\<open>stopAudioFocusKeepAlive\<close> always leaves it cleared.
\<close>

lemma stopAudioFocusKeepAlive_eq:
  assumes "timers_ok st"
  shows "stopAudioFocusKeepAlive st =
           st\<lparr>timers := (case audioFocusTimer st of
                             None \<Rightarrow> timers st
                           | Some i \<Rightarrow> filter (\<lambda>t. tid t \<noteq> i) (timers st)),
              audioFocusTimer := None,
              silencePlayer := \<lparr>src = Some [], paused = True\<rparr>\<rparr>"
proof (cases "audioFocusTimer st")
  case None
  then show ?thesis
    by (simp add: stopAudioFocusKeepAlive_def media_set_src_def Let_def)
next
  case (Some i)
  with timers_okD(11)[OF assms Some] show ?thesis
    by (simp add: stopAudioFocusKeepAlive_def clearTimeout_def media_set_src_def Let_def)
qed

lemma timers_ok_stopAudioFocusKeepAlive:
  assumes "timers_ok st"
  shows "timers_ok (stopAudioFocusKeepAlive st)"
proof (cases "audioFocusTimer st")
  case None
  with assms show ?thesis
    by (simp add: stopAudioFocusKeepAlive_def Let_def)
next
  case (Some i)
  show ?thesis
    by (rule timers_ok_remove[OF assms, where i = i])
       (simp_all add: stopAudioFocusKeepAlive_eq[OF assms] Some)
qed

lemma fields_stopAudioFocusKeepAlive [simp]:
  "pollTimer (stopAudioFocusKeepAlive st) = pollTimer st"
  "audioPlayer (stopAudioFocusKeepAlive st) = audioPlayer st"
  "currentSlot (stopAudioFocusKeepAlive st) = currentSlot st"
  "broadcasts (stopAudioFocusKeepAlive st) = broadcasts st"
  "lastFetchDate (stopAudioFocusKeepAlive st) = lastFetchDate st"
  "nextTimerId (stopAudioFocusKeepAlive st) = nextTimerId st"
  "notices (stopAudioFocusKeepAlive st) = notices st"
  "silencePlayer (stopAudioFocusKeepAlive st) = \<lparr>src = Some [], paused = True\<rparr>"
  by (simp_all add: stopAudioFocusKeepAlive_def clearTimeout_def media_set_src_def Let_def
        split: option.splits)

lemma stopAudioFocusKeepAlive_clears:
  "timers_ok st \<Longrightarrow> audioFocusTimer (stopAudioFocusKeepAlive st) = None"
  by (simp add: stopAudioFocusKeepAlive_eq)

lemma no_focus_pending:
  assumes "timers_ok st" "audioFocusTimer st = None"
  shows "pending AudioFocusCallback st = []"
proof -
  have "callback t \<noteq> AudioFocusCallback" if "t \<in> set (timers st)" for t
    using timers_okD(6)[OF assms(1) that] assms(2) by auto
  then show ?thesis by (simp add: pending_def filter_empty_conv)
qed

lemma pending_stopAudioFocusKeepAlive:
  "timers_ok st \<Longrightarrow> pending AudioFocusCallback (stopAudioFocusKeepAlive st) = []"
  by (intro no_focus_pending timers_ok_stopAudioFocusKeepAlive stopAudioFocusKeepAlive_clears)

lemma fields_startAudioFocusKeepAlive [simp]:
  "pollTimer (startAudioFocusKeepAlive oc st) = pollTimer st"
  "audioPlayer (startAudioFocusKeepAlive oc st) = audioPlayer st"
  "currentSlot (startAudioFocusKeepAlive oc st) = currentSlot st"
  "broadcasts (startAudioFocusKeepAlive oc st) = broadcasts st"
  "lastFetchDate (startAudioFocusKeepAlive oc st) = lastFetchDate st"
  "nextTimerId (startAudioFocusKeepAlive oc st) = Suc (nextTimerId st)"
  "audioFocusTimer (startAudioFocusKeepAlive oc st) = Some (nextTimerId st)"
  "timers (startAudioFocusKeepAlive oc st)
     = timers (stopAudioFocusKeepAlive st)
       @ [\<lparr>tid = nextTimerId st, callback = AudioFocusCallback, delay = AUDIO_FOCUS_TIMEOUT\<rparr>]"
  by (simp_all add: startAudioFocusKeepAlive_def setTimeout_def Let_def)

lemma timers_ok_startAudioFocusKeepAlive:
  assumes "timers_ok st"
  shows "timers_ok (startAudioFocusKeepAlive oc st)"
  by (rule timers_ok_add[OF timers_ok_stopAudioFocusKeepAlive[OF assms],
        where cb = AudioFocusCallback and d = AUDIO_FOCUS_TIMEOUT])
     (simp_all add: stopAudioFocusKeepAlive_clears[OF assms])

lemma pending_startAudioFocusKeepAlive:
  assumes "timers_ok st"
  shows "pending AudioFocusCallback (startAudioFocusKeepAlive oc st)
           = [\<lparr>tid = nextTimerId st, callback = AudioFocusCallback, delay = AUDIO_FOCUS_TIMEOUT\<rparr>]"
  using pending_stopAudioFocusKeepAlive[OF assms] by (simp add: pending_def)

lemma timers_ok_stopPlayback: "timers_ok st \<Longrightarrow> timers_ok (stopPlayback st)"
  by (simp add: stopPlayback_def Let_def timers_ok_stopAudioFocusKeepAlive)

lemma fields_stopPlayback [simp]:
  "pollTimer (stopPlayback st) = pollTimer st"
  "currentSlot (stopPlayback st) = None"
  "audioPlayer (stopPlayback st) = \<lparr>src = Some [], paused = True\<rparr>"
  "silencePlayer (stopPlayback st) = \<lparr>src = Some [], paused = True\<rparr>"
  "broadcasts (stopPlayback st) = broadcasts st"
  "lastFetchDate (stopPlayback st) = lastFetchDate st"
  "nextTimerId (stopPlayback st) = nextTimerId st"
  "timers (stopPlayback st) = timers (stopAudioFocusKeepAlive st)"
  "audioFocusTimer (stopPlayback st) = audioFocusTimer (stopAudioFocusKeepAlive st)"
  by (simp_all add: stopPlayback_def media_set_src_def Let_def)

lemma status_stopPlayback [simp]: "status (stopPlayback st) = Stopped"
  by (simp add: status_def)

lemma timers_ok_playBroadcast: "timers_ok st \<Longrightarrow> timers_ok (playBroadcast slot oc st)"
  by (auto simp: playBroadcast_def Let_def timers_ok_stopAudioFocusKeepAlive
        timers_ok_showStatus split: option.splits play_outcome.splits)

lemma timers_ok_togglePlayPause: "timers_ok st \<Longrightarrow> timers_ok (togglePlayPause oc st)"
  by (auto simp: togglePlayPause_def Let_def timers_ok_stopAudioFocusKeepAlive
        timers_ok_showStatus timers_ok_playBroadcast timers_ok_startAudioFocusKeepAlive
        split: option.splits play_outcome.splits)

lemma timers_ok_checkDayChange: "timers_ok st \<Longrightarrow> timers_ok (snd (checkDayChange d st))"
  by (auto simp: checkDayChange_def resetForNewDay_def timers_ok_stopPlayback
        split: option.splits)

lemma timers_ok_updateBroadcasts_resume:
  "timers_ok st \<Longrightarrow> timers_ok (updateBroadcasts_resume r d st)"
  by (auto simp: updateBroadcasts_resume_def timers_ok_showStatus split: fetch_result.splits)

text \<open>
  \<^verbatim>\<open>schedulePoll\<close> in a state that satisfies the invariant: the pending poll timer,
  if any, is the one the handle names, so after \<^verbatim>\<open>clearTimeout\<close> none is pending.
\<close>

lemma poll_cleared:
  assumes ok: "timers_ok st"
  shows "\<forall>t\<in>set (case pollTimer st of None \<Rightarrow> timers st
                   | Some i \<Rightarrow> filter (\<lambda>t. tid t \<noteq> i) (timers st)).
           callback t \<noteq> PollCallback"
proof (cases "pollTimer st")
  case None
  then show ?thesis using timers_okD(5)[OF ok] by auto
next
  case (Some i)
  then show ?thesis using timers_okD(5)[OF ok] by auto
qed

lemma schedulePoll_eq:
  assumes ok: "timers_ok st"
  shows "schedulePoll h m st =
           st\<lparr>timers := (case pollTimer st of None \<Rightarrow> timers st
                           | Some i \<Rightarrow> filter (\<lambda>t. tid t \<noteq> i) (timers st))
                         @ [\<lparr>tid = nextTimerId st, callback = PollCallback,
                              delay = calculatePollInterval h m st\<rparr>],
              nextTimerId := Suc (nextTimerId st),
              pollTimer := Some (nextTimerId st)\<rparr>"
proof (cases "pollTimer st")
  case None
  then show ?thesis
    by (simp add: schedulePoll_def setTimeout_def Let_def)
next
  case (Some i)
  have "calculatePollInterval h m (clearTimeout i st) = calculatePollInterval h m st"
    by (simp add: calculatePollInterval_def clearTimeout_def)
  with timers_okD(8)[OF ok Some] Some show ?thesis
    by (simp add: schedulePoll_def setTimeout_def clearTimeout_def Let_def)
qed

lemma timers_ok_schedulePoll:
  assumes ok: "timers_ok st"
  shows "timers_ok (schedulePoll h m st)"
proof -
  let ?st1 = "st\<lparr>timers := (case pollTimer st of None \<Rightarrow> timers st
                           | Some i \<Rightarrow> filter (\<lambda>t. tid t \<noteq> i) (timers st))\<rparr>"
  have ok1: "timers_ok ?st1"
  proof (cases "pollTimer st")
    case None
    with ok show ?thesis by (simp add: timers_ok_def)
  next
    case (Some i)
    show ?thesis
      by (rule timers_ok_remove[OF ok, where i = i])
         (simp_all add: Some handles_differ[OF ok Some])
  qed
  show ?thesis
    by (rule timers_ok_add[OF ok1, where cb = PollCallback
          and d = "calculatePollInterval h m st"])
       (use poll_cleared[OF ok] in \<open>simp_all add: schedulePoll_eq[OF ok]\<close>)
qed

lemma pending_schedulePoll:
  assumes ok: "timers_ok st"
  shows "pending PollCallback (schedulePoll h m st)
           = [\<lparr>tid = nextTimerId st, callback = PollCallback,
               delay = calculatePollInterval h m st\<rparr>]"
  using poll_cleared[OF ok]
  by (simp add: pending_def schedulePoll_eq[OF ok] filter_empty_conv)

lemma fields_schedulePoll [simp]:
  "audioFocusTimer (schedulePoll h m st) = audioFocusTimer st"
  "audioPlayer (schedulePoll h m st) = audioPlayer st"
  "currentSlot (schedulePoll h m st) = currentSlot st"
  "broadcasts (schedulePoll h m st) = broadcasts st"
  by (simp_all add: schedulePoll_def setTimeout_def clearTimeout_def Let_def
        split: option.splits)

text \<open>What a firing timer does, in a state that satisfies the invariant.\<close>

lemma audioFocusTimeout_fired:
  assumes "timers_ok st" "audioFocusTimer st = Some i"
  shows "audioFocusTimeout (st\<lparr>timers := filter (\<lambda>t. tid t \<noteq> i) (timers st)\<rparr>)
           = audioFocusTimeout st"
  using timers_okD(11)[OF assms] assms(2)
  by (simp add: audioFocusTimeout_def stopAudioFocusKeepAlive_def clearTimeout_def Let_def)

lemma fire_timer_eq:
  assumes ok: "timers_ok st"
  shows "fire_timer i d st =
           (case find (\<lambda>t. tid t = i) (timers st) of
              None \<Rightarrow> st
            | Some t \<Rightarrow>
                (case callback t of
                   PollCallback \<Rightarrow>
                     pollCallback_begin d (st\<lparr>timers := filter (\<lambda>t. tid t \<noteq> i) (timers st)\<rparr>)
                 | AudioFocusCallback \<Rightarrow> audioFocusTimeout st
                 | HideStatusCallback \<Rightarrow>
                     st\<lparr>timers := filter (\<lambda>t. tid t \<noteq> i) (timers st)\<rparr>))"
proof (cases "find (\<lambda>t. tid t = i) (timers st)")
  case None
  then show ?thesis by (simp add: fire_timer_def)
next
  case (Some t)
  then have t: "t \<in> set (timers st)" "tid t = i"
    by (auto simp: find_Some_iff)
  show ?thesis
  proof (cases "callback t")
    case AudioFocusCallback
    from timers_okD(6)[OF ok t(1) this] t(2) have "audioFocusTimer st = Some i" by simp
    from audioFocusTimeout_fired[OF ok this] Some AudioFocusCallback show ?thesis
      by (simp add: fire_timer_def Let_def)
  qed (simp_all add: fire_timer_def Some Let_def)
qed

lemma timers_ok_fired:
  assumes ok: "timers_ok st" and t: "t \<in> set (timers st)"
    and nf: "callback t \<noteq> AudioFocusCallback"
  shows "timers_ok (st\<lparr>timers := filter (\<lambda>u. tid u \<noteq> tid t) (timers st)\<rparr>)"
proof -
  have "audioFocusTimer st \<noteq> Some (tid t)"
  proof
    assume h: "audioFocusTimer st = Some (tid t)"
    from timers_okD(13)[OF ok h] obtain u where
      u: "u \<in> set (timers st)" "tid u = tid t" "callback u = AudioFocusCallback" by blast
    from same_tid_same_timer[OF ok u(1) t u(2)] u(3) nf show False by simp
  qed
  then show ?thesis
    by (intro timers_ok_remove[OF ok, where i = "tid t"]) simp_all
qed

lemma timers_ok_audioFocusTimeout: "timers_ok st \<Longrightarrow> timers_ok (audioFocusTimeout st)"
  by (simp add: audioFocusTimeout_def timers_ok_stopPlayback timers_ok_stopAudioFocusKeepAlive)

lemma timers_ok_fire_timer:
  assumes ok: "timers_ok st"
  shows "timers_ok (fire_timer i d st)"
proof (cases "find (\<lambda>t. tid t = i) (timers st)")
  case None
  with ok show ?thesis by (simp add: fire_timer_eq)
next
  case (Some t)
  then have t: "t \<in> set (timers st)" "tid t = i"
    by (auto simp: find_Some_iff)
  show ?thesis
  proof (cases "callback t")
    case PollCallback
    with timers_ok_fired[OF ok t(1)] t(2)
    have "timers_ok (st\<lparr>timers := filter (\<lambda>u. tid u \<noteq> i) (timers st)\<rparr>)" by simp
    then show ?thesis using Some PollCallback
      by (simp add: fire_timer_eq[OF ok] pollCallback_begin_def updateBroadcasts_begin_def
            timers_ok_checkDayChange)
  next
    case AudioFocusCallback
    then show ?thesis using Some
      by (simp add: fire_timer_eq[OF ok] timers_ok_audioFocusTimeout[OF ok])
  next
    case HideStatusCallback
    with timers_ok_fired[OF ok t(1)] t(2)
    have "timers_ok (st\<lparr>timers := filter (\<lambda>u. tid u \<noteq> i) (timers st)\<rparr>)" by simp
    then show ?thesis using Some HideStatusCallback
      by (simp add: fire_timer_eq[OF ok])
  qed
qed

lemma timers_ok_step: "timers_ok st \<Longrightarrow> timers_ok (step e st)"
proof (cases e)
  case (MidnightTick d)
  assume "timers_ok st"
  then show ?thesis using MidnightTick timers_ok_checkDayChange[of st d]
      timers_ok_checkDayChange[of "snd (checkDayChange d st)" d]
    by (auto simp: midnightCheck_def updateBroadcasts_begin_def split: prod.splits bool.splits)
qed (simp_all add: init_begin_def updateBroadcasts_begin_def timers_ok_checkDayChange
       timers_ok_playBroadcast timers_ok_togglePlayPause mediaSession_play_def
       mediaSession_pause_def mediaSession_stop_def on_ended_def on_error_def
       timers_ok_stopAudioFocusKeepAlive timers_ok_startAudioFocusKeepAlive
       timers_ok_stopPlayback timers_ok_showStatus timers_ok_fire_timer
       pollCallback_resume_def timers_ok_schedulePoll timers_ok_updateBroadcasts_resume
       Let_def)

lemma timers_ok_run: "timers_ok st \<Longrightarrow> timers_ok (run es st)"
  by (induction es arbitrary: st) (simp_all add: timers_ok_step)

lemma timers_ok_reachable: "timers_ok (run es initial_state)"
  by (rule timers_ok_run[OF timers_ok_initial])

lemma at_most_one_pending:
  assumes ok: "timers_ok st" and cb: "cb = PollCallback \<or> cb = AudioFocusCallback"
  shows "length (pending cb st) \<le> 1"
proof -
  obtain h where h: "\<forall>t\<in>set (timers st). callback t = cb \<longrightarrow> tid t = h"
  proof (cases "\<exists>t\<in>set (timers st). callback t = cb")
    case False
    then show ?thesis using that by blast
  next
    case True
    then obtain u where u: "u \<in> set (timers st)" "callback u = cb" by blast
    have "tid t = tid u" if "t \<in> set (timers st)" "callback t = cb" for t
      using cb timers_okD(5,6)[OF ok that(1)] timers_okD(5,6)[OF ok u(1)] that(2) u(2)
      by auto
    then show ?thesis using that by blast
  qed
  have "length (filter (\<lambda>t. callback t = cb) ts) \<le> 1"
    if "distinct (map tid ts)" "\<forall>t\<in>set ts. callback t = cb \<longrightarrow> tid t = h" for ts
    using that
  proof (induction ts)
    case Nil
    then show ?case by simp
  next
    case (Cons a ts)
    show ?case
    proof (cases "callback a = cb")
      case True
      have "callback t \<noteq> cb" if "t \<in> set ts" for t
      proof
        assume "callback t = cb"
        with Cons.prems(2) that True have "tid t = tid a" by simp
        moreover from that have "tid t \<in> tid ` set ts" by simp
        ultimately show False using Cons.prems(1) by simp
      qed
      then have "\<forall>t\<in>set ts. callback t \<noteq> cb" by blast
      then have "filter (\<lambda>t. callback t = cb) ts = []" by (simp add: filter_empty_conv)
      with True show ?thesis by simp
    next
      case False
      with Cons show ?thesis by simp
    qed
  qed
  from this[OF timers_okD(4)[OF ok] h] show ?thesis by (simp add: pending_def)
qed

section \<open>The audio-focus timer and the playback status\<close>








lemma find_pending:
  assumes ok: "timers_ok st" and t: "t \<in> set (timers st)"
  shows "find (\<lambda>u. tid u = tid t) (timers st) = Some t"
proof (cases "find (\<lambda>u. tid u = tid t) (timers st)")
  case None
  with t show ?thesis by (auto simp: find_None_iff)
next
  case (Some u)
  then have "u \<in> set (timers st)" "tid u = tid t" by (auto simp: find_Some_iff)
  from same_tid_same_timer[OF ok this(1) t this(2)] Some show ?thesis by simp
qed

lemma fire_focus_timer:
  assumes ok: "timers_ok st" and h: "audioFocusTimer st = Some i"
  shows "fire_timer i d st = audioFocusTimeout st"
proof -
  from timers_okD(13)[OF ok h] obtain t where
    t: "t \<in> set (timers st)" "tid t = i" "callback t = AudioFocusCallback" by blast
  from find_pending[OF ok t(1)] t(2,3) show ?thesis
    by (simp add: fire_timer_eq[OF ok])
qed

lemma audioFocusTimeout_stops:
  assumes ok: "timers_ok st"
  shows "status (audioFocusTimeout st) = Stopped"
    and "currentSlot (audioFocusTimeout st) = None"
    and "audioFocusTimer (audioFocusTimeout st) = None"
    and "silencePlayer (audioFocusTimeout st) = \<lparr>src = Some [], paused = True\<rparr>"
    and "pending AudioFocusCallback (audioFocusTimeout st) = []"
proof -
  note ok1 = timers_ok_stopAudioFocusKeepAlive[OF ok]
  show "status (audioFocusTimeout st) = Stopped"
    "currentSlot (audioFocusTimeout st) = None"
    "silencePlayer (audioFocusTimeout st) = \<lparr>src = Some [], paused = True\<rparr>"
    by (simp_all add: audioFocusTimeout_def)
  show "audioFocusTimer (audioFocusTimeout st) = None"
    by (simp add: audioFocusTimeout_def stopAudioFocusKeepAlive_clears[OF ok1])
  show "pending AudioFocusCallback (audioFocusTimeout st) = []"
    using pending_stopAudioFocusKeepAlive[OF ok1]
    by (simp add: audioFocusTimeout_def pending_def)
qed

lemma resume_cancels:
  assumes ok: "timers_ok st" and p: "status st = Paused" and h: "audioFocusTimer st = Some i"
  shows "audioFocusTimer (togglePlayPause oc st) = None"
    and "pending AudioFocusCallback (togglePlayPause oc st) = []"
    and "fire_timer i d (togglePlayPause oc st) = togglePlayPause oc st"
    and "status (togglePlayPause Accepted st) = Playing"
proof -
  from p have l: "\<not> src_property_empty (audioPlayer st)" "paused (audioPlayer st)"
    "loaded (audioPlayer st)"
    by (auto simp: status_def loaded_src split: if_splits)
  let ?s1 = "stopAudioFocusKeepAlive st"
  have eq: "togglePlayPause oc' st =
      (case oc' of Rejected \<Rightarrow> showStatus CouldNotPlay True
                                 (?s1\<lparr>audioPlayer := media_play oc' (audioPlayer ?s1)\<rparr>)
       | Accepted \<Rightarrow> ?s1\<lparr>audioPlayer := media_play oc' (audioPlayer ?s1)\<rparr>)" for oc'
    using l by (simp add: togglePlayPause_def Let_def)
  have tm: "timers ?s1 = filter (\<lambda>t. tid t \<noteq> i) (timers st)"
    by (simp add: stopAudioFocusKeepAlive_eq[OF ok] h)
  show "audioFocusTimer (togglePlayPause oc st) = None"
    using stopAudioFocusKeepAlive_clears[OF ok]
    by (simp add: eq split: play_outcome.splits)
  show "pending AudioFocusCallback (togglePlayPause oc st) = []"
    using pending_stopAudioFocusKeepAlive[OF ok]
    by (simp add: eq pending_def split: play_outcome.splits)
  have "i \<noteq> nextTimerId st" using timers_okD(12)[OF ok h] by simp
  then have "find (\<lambda>t. tid t = i) (timers (togglePlayPause oc st)) = None"
    by (auto simp: eq tm find_None_iff split: play_outcome.splits)
  then show "fire_timer i d (togglePlayPause oc st) = togglePlayPause oc st"
    by (simp add: fire_timer_def)
  show "status (togglePlayPause Accepted st) = Playing"
    using l by (simp add: eq status_def media_play_def)
qed

lemma pause_arms:
  assumes ok: "timers_ok st" and p: "status st = Playing"
  shows "status (togglePlayPause oc st) = Paused"
    and "audioFocusTimer (togglePlayPause oc st) = Some (nextTimerId st)"
    and "pending AudioFocusCallback (togglePlayPause oc st)
           = [\<lparr>tid = nextTimerId st, callback = AudioFocusCallback,
               delay = AUDIO_FOCUS_TIMEOUT\<rparr>]"
proof -
  from p have l: "\<not> src_property_empty (audioPlayer st)" "\<not> paused (audioPlayer st)"
    "loaded (audioPlayer st)"
    by (auto simp: status_def loaded_src split: if_splits)
  let ?s0 = "st\<lparr>audioPlayer := media_pause (audioPlayer st)\<rparr>"
  have eq: "togglePlayPause oc st = startAudioFocusKeepAlive oc ?s0"
    using l by (simp add: togglePlayPause_def)
  have ok0: "timers_ok ?s0" using ok by simp
  show "status (togglePlayPause oc st) = Paused"
    using l by (simp add: eq status_def media_pause_def)
  show "audioFocusTimer (togglePlayPause oc st) = Some (nextTimerId st)"
    by (simp add: eq)
  show "pending AudioFocusCallback (togglePlayPause oc st)
           = [\<lparr>tid = nextTimerId st, callback = AudioFocusCallback,
               delay = AUDIO_FOCUS_TIMEOUT\<rparr>]"
    using pending_startAudioFocusKeepAlive[OF ok0, of oc] by (simp add: eq)
qed

text \<open>
  C7. In every state the app reaches: pausing a playing broadcast leaves it paused
  with one pending audio-focus timer, the one the handle names, armed with
  \<open>AUDIO_FOCUS_TIMEOUT\<close>, which is 15 minutes in milliseconds. Resuming a paused
  broadcast whose timer is armed clears the handle and cancels the timer, so that it
  can no longer fire, and an accepted resume is playing again. When the armed timer
  fires instead, the controller is stopped: no source, no current slot, no handle, the
  silent keep-alive player released.
\<close>

theorem pause_arms_focus_timer:
  "st = run es initial_state \<Longrightarrow>
   (status st = Playing \<longrightarrow>
      status (togglePlayPause oc st) = Paused \<and>
      audioFocusTimer (togglePlayPause oc st) = Some (nextTimerId st) \<and>
      pending AudioFocusCallback (togglePlayPause oc st)
        = [\<lparr>tid = nextTimerId st, callback = AudioFocusCallback,
            delay = AUDIO_FOCUS_TIMEOUT\<rparr>] \<and>
      AUDIO_FOCUS_TIMEOUT = 15 * 60 * 1000)
   \<and> (status st = Paused \<and> audioFocusTimer st = Some i \<longrightarrow>
      audioFocusTimer (togglePlayPause oc st) = None \<and>
      pending AudioFocusCallback (togglePlayPause oc st) = [] \<and>
      fire_timer i d (togglePlayPause oc st) = togglePlayPause oc st \<and>
      status (togglePlayPause Accepted st) = Playing)
   \<and> (status st = Paused \<and> audioFocusTimer st = Some i \<longrightarrow>
      status (fire_timer i d st) = Stopped \<and>
      currentSlot (fire_timer i d st) = None \<and>
      audioFocusTimer (fire_timer i d st) = None \<and>
      silencePlayer (fire_timer i d st) = \<lparr>src = Some [], paused = True\<rparr> \<and>
      pending AudioFocusCallback (fire_timer i d st) = [])"
proof -
  assume st: "st = run es initial_state"
  have ok: "timers_ok st" unfolding st by (rule timers_ok_reachable)
  have a: "status (togglePlayPause oc st) = Paused \<and>
      audioFocusTimer (togglePlayPause oc st) = Some (nextTimerId st) \<and>
      pending AudioFocusCallback (togglePlayPause oc st)
        = [\<lparr>tid = nextTimerId st, callback = AudioFocusCallback,
            delay = AUDIO_FOCUS_TIMEOUT\<rparr>] \<and>
      AUDIO_FOCUS_TIMEOUT = 15 * 60 * 1000"
    if "status st = Playing"
    using pause_arms[OF ok that] by (simp add: AUDIO_FOCUS_TIMEOUT_def)
  have b: "audioFocusTimer (togglePlayPause oc st) = None \<and>
      pending AudioFocusCallback (togglePlayPause oc st) = [] \<and>
      fire_timer i d (togglePlayPause oc st) = togglePlayPause oc st \<and>
      status (togglePlayPause Accepted st) = Playing"
    if "status st = Paused" "audioFocusTimer st = Some i"
    using resume_cancels[OF ok that] by simp
  have c: "status (fire_timer i d st) = Stopped \<and>
      currentSlot (fire_timer i d st) = None \<and>
      audioFocusTimer (fire_timer i d st) = None \<and>
      silencePlayer (fire_timer i d st) = \<lparr>src = Some [], paused = True\<rparr> \<and>
      pending AudioFocusCallback (fire_timer i d st) = []"
    if "audioFocusTimer st = Some i"
    using audioFocusTimeout_stops[OF ok] by (simp add: fire_focus_timer[OF ok that])
  from a b c show ?thesis by blast
qed

lemma demo_runs:
  "demo_loaded = run [Init ''2026-11-02'',
      PollFetchSettled (Fetched [(''08:00'', demo_broadcast ''08:00'' 100)]) ''2026-11-02'' 12 0]
     initial_state"
  "demo_playing = run [Init ''2026-11-02'',
      PollFetchSettled (Fetched [(''08:00'', demo_broadcast ''08:00'' 100)]) ''2026-11-02'' 12 0,
      TileClick ''08:00'' Accepted] initial_state"
  "demo_paused = run [Init ''2026-11-02'',
      PollFetchSettled (Fetched [(''08:00'', demo_broadcast ''08:00'' 100)]) ''2026-11-02'' 12 0,
      TileClick ''08:00'' Accepted, ToggleClick Accepted] initial_state"
  by (simp_all add: demo_loaded_def demo_playing_def demo_paused_def)

lemma demo_values:
  "status demo_playing = Playing" "nextTimerId demo_playing = 2"
  "status demo_paused = Paused" "audioFocusTimer demo_paused = Some 2"
  "pollTimer demo_loaded = Some 1"
  "timers demo_loaded = [\<lparr>tid = 1, callback = PollCallback, delay = 1800000\<rparr>]"
  "timers demo_paused = [\<lparr>tid = 1, callback = PollCallback, delay = 1800000\<rparr>,
                         \<lparr>tid = 2, callback = AudioFocusCallback, delay = 900000\<rparr>]"
  "nextTimerId demo_paused = 3" "loaded (audioPlayer demo_paused)"
  by (simp_all add: demo_defs op_defs Let_def)

theorem pause_arms_focus_timer_witness:
  "status demo_playing = Playing
   \<and> status (togglePlayPause Accepted demo_playing) = Paused
   \<and> audioFocusTimer (togglePlayPause Accepted demo_playing) = Some 2
   \<and> pending AudioFocusCallback (togglePlayPause Accepted demo_playing)
        = [\<lparr>tid = 2, callback = AudioFocusCallback, delay = 900000\<rparr>]
   \<and> status demo_paused = Paused \<and> audioFocusTimer demo_paused = Some 2
   \<and> audioFocusTimer (togglePlayPause Accepted demo_paused) = None
   \<and> status (togglePlayPause Accepted demo_paused) = Playing
   \<and> status (fire_timer 2 ''2026-11-02'' demo_paused) = Stopped
   \<and> currentSlot (fire_timer 2 ''2026-11-02'' demo_paused) = None"
  using pause_arms_focus_timer [OF demo_runs(2), where oc = Accepted]
        pause_arms_focus_timer [OF demo_runs(3), where i = 2 and oc = Accepted
          and d = "''2026-11-02''"]
        demo_values
  by (simp add: AUDIO_FOCUS_TIMEOUT_def)




section \<open>Single-instance timers\<close>

lemma fire_poll_timer:
  assumes ok: "timers_ok st" and t: "t \<in> set (timers st)" "callback t = PollCallback"
  shows "pollTimer (fire_timer (tid t) d st) = Some (tid t)"
    and "pending PollCallback (fire_timer (tid t) d st) = []"
proof -
  let ?s1 = "st\<lparr>timers := filter (\<lambda>u. tid u \<noteq> tid t) (timers st)\<rparr>"
  have eq: "fire_timer (tid t) d st = snd (checkDayChange d ?s1)"
    using find_pending[OF ok t(1)] t(2)
    by (simp add: fire_timer_eq[OF ok] pollCallback_begin_def updateBroadcasts_begin_def)
  have h: "pollTimer st = Some (tid t)" by (rule timers_okD(5)[OF ok t])
  have ok1: "timers_ok ?s1" using timers_ok_fired[OF ok t(1)] t(2) by simp
  have none: "callback u \<noteq> PollCallback" if "u \<in> set (timers ?s1)" for u
  proof
    assume "callback u = PollCallback"
    with timers_okD(5)[OF ok, of u] that h show False by auto
  qed
  have sub: "set (timers (snd (checkDayChange d ?s1))) \<subseteq> set (timers ?s1)"
    by (auto simp: checkDayChange_def resetForNewDay_def
          stopAudioFocusKeepAlive_eq[of "?s1\<lparr>broadcasts := [], currentSlot := None,
            lastFetchDate := Some d\<rparr>"] ok1
          split: option.splits)
  show "pollTimer (fire_timer (tid t) d st) = Some (tid t)"
    using h by (auto simp: eq checkDayChange_def resetForNewDay_def split: option.splits)
  show "pending PollCallback (fire_timer (tid t) d st) = []"
    using none sub unfolding eq pending_def filter_empty_conv by blast
qed

text \<open>
  C9, as the code has it. In every state the app reaches at most one poll timer and at
  most one audio-focus timer is pending. \<^verbatim>\<open>schedulePoll\<close> and
  \<^verbatim>\<open>startAudioFocusKeepAlive\<close> cancel the pending instance before they arm: after
  either, the one pending timer of its kind is the new one, and the handle names it.
  A firing audio-focus timer clears its own handle. A firing poll timer leaves the
  table but its handle is kept; the handle is replaced when the callback arms the next
  timer through \<^verbatim>\<open>schedulePoll\<close>.
\<close>

theorem timers_single_instance:
  "st = run es initial_state \<Longrightarrow>
   length (pending PollCallback st) \<le> 1 \<and> length (pending AudioFocusCallback st) \<le> 1
   \<and> pending PollCallback (schedulePoll h m st)
        = [\<lparr>tid = nextTimerId st, callback = PollCallback,
            delay = calculatePollInterval h m st\<rparr>]
   \<and> pollTimer (schedulePoll h m st) = Some (nextTimerId st)
   \<and> pending AudioFocusCallback (startAudioFocusKeepAlive oc st)
        = [\<lparr>tid = nextTimerId st, callback = AudioFocusCallback,
            delay = AUDIO_FOCUS_TIMEOUT\<rparr>]
   \<and> audioFocusTimer (startAudioFocusKeepAlive oc st) = Some (nextTimerId st)
   \<and> (\<forall>t\<in>set (pending AudioFocusCallback st).
         audioFocusTimer st = Some (tid t) \<and>
         audioFocusTimer (fire_timer (tid t) d st) = None \<and>
         pending AudioFocusCallback (fire_timer (tid t) d st) = [])
   \<and> (\<forall>t\<in>set (pending PollCallback st).
         pollTimer st = Some (tid t) \<and>
         pollTimer (fire_timer (tid t) d st) = Some (tid t) \<and>
         pending PollCallback (fire_timer (tid t) d st) = [])"
proof -
  assume st: "st = run es initial_state"
  have ok: "timers_ok st" unfolding st by (rule timers_ok_reachable)
  have one: "length (pending PollCallback st) \<le> 1 \<and> length (pending AudioFocusCallback st) \<le> 1"
    using at_most_one_pending[OF ok] by simp
  have poll: "pending PollCallback (schedulePoll h m st)
        = [\<lparr>tid = nextTimerId st, callback = PollCallback,
            delay = calculatePollInterval h m st\<rparr>]
      \<and> pollTimer (schedulePoll h m st) = Some (nextTimerId st)"
  proof
    show "pending PollCallback (schedulePoll h m st)
        = [\<lparr>tid = nextTimerId st, callback = PollCallback,
            delay = calculatePollInterval h m st\<rparr>]"
      by (rule pending_schedulePoll[OF ok])
    show "pollTimer (schedulePoll h m st) = Some (nextTimerId st)"
      by (simp add: schedulePoll_eq[OF ok])
  qed
  have focus: "pending AudioFocusCallback (startAudioFocusKeepAlive oc st)
        = [\<lparr>tid = nextTimerId st, callback = AudioFocusCallback,
            delay = AUDIO_FOCUS_TIMEOUT\<rparr>]
      \<and> audioFocusTimer (startAudioFocusKeepAlive oc st) = Some (nextTimerId st)"
    by (simp add: pending_startAudioFocusKeepAlive[OF ok])
  have ff: "audioFocusTimer st = Some (tid t) \<and>
         audioFocusTimer (fire_timer (tid t) d st) = None \<and>
         pending AudioFocusCallback (fire_timer (tid t) d st) = []"
    if "t \<in> set (pending AudioFocusCallback st)" for t
  proof -
    from that have t: "t \<in> set (timers st)" "callback t = AudioFocusCallback"
      by (simp_all add: pending_def)
    have h: "audioFocusTimer st = Some (tid t)" by (rule timers_okD(6)[OF ok t])
    from audioFocusTimeout_stops(3,5)[OF ok] h show ?thesis
      by (simp add: fire_focus_timer[OF ok h])
  qed
  have pf: "pollTimer st = Some (tid t) \<and>
         pollTimer (fire_timer (tid t) d st) = Some (tid t) \<and>
         pending PollCallback (fire_timer (tid t) d st) = []"
    if "t \<in> set (pending PollCallback st)" for t
  proof -
    from that have t: "t \<in> set (timers st)" "callback t = PollCallback"
      by (simp_all add: pending_def)
    from fire_poll_timer[OF ok t] timers_okD(5)[OF ok t] show ?thesis by simp
  qed
  from one poll focus ff pf show ?thesis by blast
qed

theorem timers_single_instance_witness:
  "pending PollCallback demo_paused = [\<lparr>tid = 1, callback = PollCallback, delay = 1800000\<rparr>]
   \<and> pending AudioFocusCallback demo_paused
        = [\<lparr>tid = 2, callback = AudioFocusCallback, delay = 900000\<rparr>]
   \<and> pending PollCallback (schedulePoll 13 5 demo_paused)
        = [\<lparr>tid = 3, callback = PollCallback, delay = 60000\<rparr>]
   \<and> pollTimer (schedulePoll 13 5 demo_paused) = Some 3
   \<and> pending AudioFocusCallback (startAudioFocusKeepAlive Accepted demo_paused)
        = [\<lparr>tid = 3, callback = AudioFocusCallback, delay = 900000\<rparr>]
   \<and> audioFocusTimer (fire_timer 2 ''2026-11-02'' demo_paused) = None
   \<and> pollTimer (fire_timer 1 ''2026-11-02'' demo_paused) = Some 1
   \<and> pending PollCallback (fire_timer 1 ''2026-11-02'' demo_paused) = []"
proof -
  have p: "pending PollCallback demo_paused
             = [\<lparr>tid = 1, callback = PollCallback, delay = 1800000\<rparr>]"
    "pending AudioFocusCallback demo_paused
             = [\<lparr>tid = 2, callback = AudioFocusCallback, delay = 900000\<rparr>]"
    by (simp_all add: pending_def demo_values)
  have i: "calculatePollInterval 13 5 demo_paused = 60000"
    by (simp add: demo_defs op_defs Let_def)
  from timers_single_instance [OF demo_runs(3), where h = 13 and m = 5 and oc = Accepted
         and d = "''2026-11-02''"] p i demo_values
  show ?thesis by (simp add: AUDIO_FOCUS_TIMEOUT_def)
qed

text \<open>
  The claim as stated fails for the poll timer: in the loaded state timer 1 is the
  pending poll timer; after it has fired it is no longer pending, and
  \<^verbatim>\<open>state.pollTimer\<close> still holds its id.
\<close>

theorem poll_handle_counterexample:
  "timers demo_loaded = [\<lparr>tid = 1, callback = PollCallback, delay = 1800000\<rparr>]
   \<and> pollTimer demo_loaded = Some 1
   \<and> timers (step (TimerFires 1 ''2026-11-02'') demo_loaded) = []
   \<and> pollTimer (step (TimerFires 1 ''2026-11-02'') demo_loaded) = Some 1"
  by (simp add: demo_defs op_defs Let_def)

section \<open>Rejected play requests\<close>

text \<open>
  C5, as the code has it. A rejected play request does not stop the controller.
  After \<^verbatim>\<open>playBroadcast\<close> on a slot with a broadcast and an address, the state is the
  one in which the request was issued (keep-alive stopped, current slot the requested
  slot, its source loaded and paused) with the error message "could not play" added:
  the current slot is set and the controller is not stopped. After the resume branch
  of \<^verbatim>\<open>togglePlayPause\<close> on a paused broadcast, the state is the one before with the
  keep-alive stopped and the same error message added: current slot, store and audio
  element are as before and the controller is still paused. The Media Session play
  handler has no \<^verbatim>\<open>catch\<close>: after its rejected request the state is the one before
  with the keep-alive stopped, and no message is shown. In a reachable state stopping
  the keep-alive leaves no audio-focus handle and no pending audio-focus timer, and it
  releases the silence player. The audio element's \<^verbatim>\<open>error\<close> event is what stops the
  controller and clears the current slot.
\<close>

theorem rejected_play_keeps_session:
  "(map_of (broadcasts st) slot = Some b \<and> audioUrl b \<noteq> [] \<longrightarrow>
      playBroadcast slot Rejected st
        = showStatus CouldNotPlay True
            ((stopAudioFocusKeepAlive st)
               \<lparr>currentSlot := Some slot,
                audioPlayer := \<lparr>src = Some (audioUrl b), paused = True\<rparr>\<rparr>) \<and>
      currentSlot (playBroadcast slot Rejected st) = Some slot \<and>
      src (audioPlayer (playBroadcast slot Rejected st)) = Some (audioUrl b) \<and>
      status (playBroadcast slot Rejected st) \<noteq> Stopped \<and>
      notices (playBroadcast slot Rejected st)
        = notices st @ [\<lparr>msg = CouldNotPlay, isError = True\<rparr>])
   \<and> (status st = Paused \<longrightarrow>
      togglePlayPause Rejected st
        = showStatus CouldNotPlay True (stopAudioFocusKeepAlive st) \<and>
      currentSlot (togglePlayPause Rejected st) = currentSlot st \<and>
      broadcasts (togglePlayPause Rejected st) = broadcasts st \<and>
      audioPlayer (togglePlayPause Rejected st) = audioPlayer st \<and>
      status (togglePlayPause Rejected st) = Paused \<and>
      notices (togglePlayPause Rejected st)
        = notices st @ [\<lparr>msg = CouldNotPlay, isError = True\<rparr>])
   \<and> mediaSession_play Rejected st = stopAudioFocusKeepAlive st
   \<and> notices (mediaSession_play Rejected st) = notices st
   \<and> currentSlot (mediaSession_play Rejected st) = currentSlot st
   \<and> audioPlayer (mediaSession_play Rejected st) = audioPlayer st
   \<and> status (mediaSession_play Rejected st) = status st
   \<and> silencePlayer (stopAudioFocusKeepAlive st) = \<lparr>src = Some [], paused = True\<rparr>
   \<and> (st = run es initial_state \<longrightarrow>
        audioFocusTimer (stopAudioFocusKeepAlive st) = None \<and>
        pending AudioFocusCallback (stopAudioFocusKeepAlive st) = [])
   \<and> status (on_error st) = Stopped \<and> currentSlot (on_error st) = None"
proof -
  have p: "playBroadcast slot Rejected st
        = showStatus CouldNotPlay True
            ((stopAudioFocusKeepAlive st)
               \<lparr>currentSlot := Some slot,
                audioPlayer := \<lparr>src = Some (audioUrl b), paused = True\<rparr>\<rparr>)"
    if "map_of (broadcasts st) slot = Some b" "audioUrl b \<noteq> []"
    using that
    by (simp add: playBroadcast_def media_play_def media_set_src_def Let_def)
  have p': "currentSlot (playBroadcast slot Rejected st) = Some slot \<and>
      src (audioPlayer (playBroadcast slot Rejected st)) = Some (audioUrl b) \<and>
      status (playBroadcast slot Rejected st) \<noteq> Stopped \<and>
      notices (playBroadcast slot Rejected st)
        = notices st @ [\<lparr>msg = CouldNotPlay, isError = True\<rparr>]"
    if "map_of (broadcasts st) slot = Some b" "audioUrl b \<noteq> []"
    using that(2) unfolding p[OF that]
    by (simp add: status_def loaded_def showStatus_def setTimeout_def)
  have r: "togglePlayPause Rejected st
        = showStatus CouldNotPlay True (stopAudioFocusKeepAlive st)"
    if "status st = Paused"
    using that
    by (auto simp: togglePlayPause_def status_def loaded_def src_property_empty_def
          media_play_def Let_def split: if_splits option.splits)
  have r': "currentSlot (togglePlayPause Rejected st) = currentSlot st \<and>
      broadcasts (togglePlayPause Rejected st) = broadcasts st \<and>
      audioPlayer (togglePlayPause Rejected st) = audioPlayer st \<and>
      status (togglePlayPause Rejected st) = Paused \<and>
      notices (togglePlayPause Rejected st)
        = notices st @ [\<lparr>msg = CouldNotPlay, isError = True\<rparr>]"
    if "status st = Paused"
    using that unfolding r[OF that]
    by (auto simp: status_def showStatus_def setTimeout_def split: if_splits)
  have m: "mediaSession_play Rejected st = stopAudioFocusKeepAlive st"
    by (simp add: mediaSession_play_def media_play_def Let_def)
  have m': "notices (mediaSession_play Rejected st) = notices st
     \<and> currentSlot (mediaSession_play Rejected st) = currentSlot st
     \<and> audioPlayer (mediaSession_play Rejected st) = audioPlayer st
     \<and> status (mediaSession_play Rejected st) = status st"
    unfolding m by (simp add: status_def)
  have k: "silencePlayer (stopAudioFocusKeepAlive st) = \<lparr>src = Some [], paused = True\<rparr>"
    by simp
  have c: "audioFocusTimer (stopAudioFocusKeepAlive st) = None \<and>
        pending AudioFocusCallback (stopAudioFocusKeepAlive st) = []"
    if "st = run es initial_state"
    using stopAudioFocusKeepAlive_clears[of st] pending_stopAudioFocusKeepAlive[of st]
      timers_ok_reachable[of es] that by simp
  have e: "status (on_error st) = Stopped \<and> currentSlot (on_error st) = None"
    by (simp add: on_error_def)
  from p p' r r' m m' k c e show ?thesis by blast
qed

text \<open>
  On the loaded store a rejected play of 08:00, and on the paused 08:00 broadcast a
  rejected resume by the button and by the Media Session.
\<close>

theorem rejected_play_keeps_session_witness:
  "map_of (broadcasts demo_loaded) ''08:00'' = Some (demo_broadcast ''08:00'' 100)
   \<and> audioUrl (demo_broadcast ''08:00'' 100) \<noteq> []
   \<and> currentSlot (playBroadcast ''08:00'' Rejected demo_loaded) = Some ''08:00''
   \<and> status (playBroadcast ''08:00'' Rejected demo_loaded) \<noteq> Stopped
   \<and> status demo_paused = Paused
   \<and> audioFocusTimer demo_paused = Some 2
   \<and> currentSlot (togglePlayPause Rejected demo_paused) = Some ''08:00''
   \<and> status (togglePlayPause Rejected demo_paused) = Paused
   \<and> audioFocusTimer (togglePlayPause Rejected demo_paused) = None
   \<and> notices (mediaSession_play Rejected demo_paused) = []
   \<and> audioFocusTimer (mediaSession_play Rejected demo_paused) = None"
proof -
  have a: "map_of (broadcasts demo_loaded) ''08:00'' = Some (demo_broadcast ''08:00'' 100)"
    by (simp add: demo_defs op_defs Let_def)
  have b: "audioUrl (demo_broadcast ''08:00'' 100) \<noteq> []"
    by (simp add: demo_broadcast_def)
  have d: "currentSlot demo_paused = Some ''08:00''" "notices demo_paused = []"
    by (simp_all add: demo_defs op_defs Let_def)
  note L = rejected_play_keeps_session
             [where st = demo_loaded and slot = "''08:00''"
                and b = "demo_broadcast ''08:00'' 100"]
  note T = rejected_play_keeps_session
             [where st = demo_paused and es = "[Init ''2026-11-02'',
                PollFetchSettled (Fetched [(''08:00'', demo_broadcast ''08:00'' 100)])
                  ''2026-11-02'' 12 0,
                TileClick ''08:00'' Accepted, ToggleClick Accepted]"]
  have p: "currentSlot (playBroadcast ''08:00'' Rejected demo_loaded) = Some ''08:00''"
    "status (playBroadcast ''08:00'' Rejected demo_loaded) \<noteq> Stopped"
    using L a b by blast+
  have q: "currentSlot (togglePlayPause Rejected demo_paused) = currentSlot demo_paused"
    "status (togglePlayPause Rejected demo_paused) = Paused"
    "togglePlayPause Rejected demo_paused
        = showStatus CouldNotPlay True (stopAudioFocusKeepAlive demo_paused)"
    using T demo_values(3) by blast+
  have m: "mediaSession_play Rejected demo_paused = stopAudioFocusKeepAlive demo_paused"
    "notices (mediaSession_play Rejected demo_paused) = notices demo_paused"
    using T by blast+
  have h: "audioFocusTimer (stopAudioFocusKeepAlive demo_paused) = None"
    using T demo_runs(3) by blast
  have h': "audioFocusTimer (togglePlayPause Rejected demo_paused) = None"
    "audioFocusTimer (mediaSession_play Rejected demo_paused) = None"
    using h unfolding q(3) m(1) by simp_all
  from a b p q(1,2) m(2) h' d demo_values(3,4) show ?thesis by simp
qed

text \<open>
  The claim as stated fails on the loaded store: after a rejected play request for
  08:00 the current slot is 08:00, its source is loaded and the controller is not
  stopped; after a rejected resume of the paused 08:00 broadcast the same.
\<close>

theorem rejected_play_counterexample:
  "currentSlot (playBroadcast ''08:00'' Rejected demo_loaded) = Some ''08:00''
   \<and> src (audioPlayer (playBroadcast ''08:00'' Rejected demo_loaded))
        = Some ''https://sr.example/08:00''
   \<and> status (playBroadcast ''08:00'' Rejected demo_loaded) \<noteq> Stopped
   \<and> currentSlot (togglePlayPause Rejected demo_paused) = Some ''08:00''
   \<and> src (audioPlayer (togglePlayPause Rejected demo_paused))
        = Some ''https://sr.example/08:00''
   \<and> status (togglePlayPause Rejected demo_paused) \<noteq> Stopped"
  by (simp add: demo_defs op_defs Let_def)

end
